(* ===== verification/Prelude.thy ===== *)
theory Prelude
  imports Main
begin

text \<open>
  Shared vocabulary of the development: the proof collections, the string
  helpers of polybar's \<open>string_util\<close> that the modules call (\<open>trim\<close>,
  \<open>replace_all\<close>), and the generic list lemmas the component proofs use.
  \<open>string_util\<close> is not among the sources of this repository; its functions
  are modelled from their use in \<open>src/src/modules/date.cpp\<close> and the spec.
\<close>

named_theorems module_defs "definitions of the module operations, unfolded together"
named_theorems trace_simps "rewrite rules for the action traces of the runners"

subsection \<open>Strings\<close>

text \<open>
  \<open>string_util::ltrim\<close>, \<open>rtrim\<close> and \<open>trim\<close> remove every occurrence of the
  needle character at the front, at the back, or at both ends.
\<close>

definition ltrim :: "string \<Rightarrow> char \<Rightarrow> string" where
  "ltrim s c = dropWhile (\<lambda>x. x = c) s"

definition rtrim :: "string \<Rightarrow> char \<Rightarrow> string" where
  "rtrim s c = rev (dropWhile (\<lambda>x. x = c) (rev s))"

definition trim :: "string \<Rightarrow> char \<Rightarrow> string" where
  "trim s c = rtrim (ltrim s c) c"

text \<open>
  \<open>string_util::replace_all(haystack, needle, replacement)\<close>: scan left to
  right, replace each occurrence of the needle and continue the search after
  the inserted replacement, so replacements never overlap and the inserted
  text is never searched again. The needles of this program are never empty;
  for an empty needle the model leaves the haystack unchanged.
\<close>

fun replace_all :: "string \<Rightarrow> string \<Rightarrow> string \<Rightarrow> string" where
  "replace_all [] n r = []"
| "replace_all (c # cs) n r =
     (if n \<noteq> [] \<and> take (length n) (c # cs) = n
      then r @ replace_all (drop (length n) (c # cs)) n r
      else c # replace_all cs n r)"

text \<open>\<open>occurs n s\<close>: the C++ \<open>s.find(n) != string::npos\<close>.\<close>

fun occurs :: "string \<Rightarrow> string \<Rightarrow> bool" where
  "occurs n [] = (n = [])"
| "occurs n (c # cs) = (take (length n) (c # cs) = n \<or> occurs n cs)"

subsection \<open>Lemmas on the string helpers\<close>

lemma ltrim_no_lead: "ltrim s c \<noteq> [] \<Longrightarrow> hd (ltrim s c) \<noteq> c"
  unfolding ltrim_def by (induction s) auto

lemma rtrim_no_trail: "rtrim s c \<noteq> [] \<Longrightarrow> last (rtrim s c) \<noteq> c"
proof -
  assume "rtrim s c \<noteq> []"
  then have "dropWhile (\<lambda>x. x = c) (rev s) \<noteq> []" by (simp add: rtrim_def)
  then have "hd (dropWhile (\<lambda>x. x = c) (rev s)) \<noteq> c" by (rule hd_dropWhile)
  then show ?thesis by (simp add: rtrim_def last_rev)
qed

lemma dropWhile_snoc_keeps_last:
  "\<not> P x \<Longrightarrow> \<exists>zs. dropWhile P (ys @ [x]) = zs @ [x]"
  by (induction ys) auto

lemma rtrim_keeps_lead:
  assumes "s \<noteq> []" "hd s \<noteq> c"
  shows "rtrim s c \<noteq> [] \<and> hd (rtrim s c) = hd s"
proof -
  obtain x xs where s: "s = x # xs" using assms(1) by (cases s) auto
  obtain zs where "dropWhile (\<lambda>y. y = c) (rev xs @ [x]) = zs @ [x]"
    using dropWhile_snoc_keeps_last [of "\<lambda>y. y = c" x "rev xs"] assms(2) s by auto
  then show ?thesis using s by (simp add: rtrim_def)
qed

lemma trim_ends:
  assumes "trim s c \<noteq> []"
  shows "hd (trim s c) \<noteq> c \<and> last (trim s c) \<noteq> c"
proof -
  have lt: "ltrim s c \<noteq> []" using assms by (auto simp: trim_def rtrim_def)
  then have "hd (ltrim s c) \<noteq> c" by (rule ltrim_no_lead)
  with lt have "hd (trim s c) = hd (ltrim s c)" by (simp add: trim_def rtrim_keeps_lead)
  with \<open>hd (ltrim s c) \<noteq> c\<close> assms show ?thesis
    by (simp add: trim_def rtrim_no_trail)
qed

lemma trim_empty_iff: "trim s c = [] \<longleftrightarrow> set s \<subseteq> {c}"
proof (cases "ltrim s c = []")
  case True
  then have "set s \<subseteq> {c}" by (auto simp: ltrim_def dropWhile_eq_Nil_conv)
  moreover have "trim s c = []" using True by (simp add: trim_def rtrim_def)
  ultimately show ?thesis by simp
next
  case False
  then have "rtrim (ltrim s c) c \<noteq> []" using ltrim_no_lead rtrim_keeps_lead by blast
  with False show ?thesis by (auto simp: trim_def ltrim_def dropWhile_eq_Nil_conv)
qed

lemma replace_all_Nil_needle [simp]: "replace_all s [] r = s"
  by (induction s) auto

lemma replace_all_no_match:
  "(\<forall>i \<le> length s. take (length n) (drop i s) \<noteq> n) \<Longrightarrow> replace_all s n r = s"
proof (induction s n r rule: replace_all.induct)
  case (1 n r)
  then show ?case by simp
next
  case (2 c cs n r)
  have "\<forall>i \<le> length cs. take (length n) (drop i cs) \<noteq> n"
  proof (intro allI impI)
    fix i assume "i \<le> length cs"
    then have "take (length n) (drop (Suc i) (c # cs)) \<noteq> n" using "2.prems" by fastforce
    then show "take (length n) (drop i cs) \<noteq> n" by simp
  qed
  moreover have "take (length n) (c # cs) \<noteq> n" using "2.prems" by (metis drop0 le0)
  ultimately show ?case using "2.IH"(2) by simp
qed


text \<open>
  \<open>replace_all\<close> removes every occurrence of a tag \<open>n\<close> when the tag's first
  character occurs nowhere else in the tag or in the replacement \<open>r\<close>, \<open>r\<close>
  starts with it too, and no text that starts with \<open>r\<close> starts with \<open>n\<close>:
  no occurrence is left behind and none is formed across a replacement.
\<close>

lemma occurs_skip: "n \<noteq> [] \<Longrightarrow> hd n \<notin> set u \<Longrightarrow> occurs n (u @ w) = occurs n w"
proof (induction u)
  case Nil
  then show ?case by simp
next
  case (Cons a u)
  then show ?case by (cases n) auto
qed

lemma occurs_Nil_needle: "occurs [] w"
  by (cases w) auto

lemma occurs_prefix: "occurs n (n @ w)"
  by (cases n) (simp_all add: occurs_Nil_needle)

lemma replace_all_copies_prefix:
  assumes "r \<noteq> []" and "hd r \<notin> set (take k (replace_all s n r))"
  shows "take k (replace_all s n r) = take k s"
  using assms
proof (induction s n r arbitrary: k rule: replace_all.induct)
  case (1 n r)
  then show ?case by simp
next
  case (2 c cs n r)
  show ?case
  proof (cases "n \<noteq> [] \<and> take (length n) (c # cs) = n")
    case True
    then show ?thesis using "2.prems" by (cases k; cases r) auto
  next
    case False
    then show ?thesis using "2.prems" "2.IH"(2) [OF False, of "k - 1"] by (cases k) auto
  qed
qed

lemma replace_all_removes:
  assumes "n \<noteq> []" "hd n \<notin> set (tl n)"
    and "r \<noteq> []" "hd r = hd n" "hd n \<notin> set (tl r)"
    and "\<forall>w. take (length n) (r @ w) \<noteq> n"
  shows "\<not> occurs n (replace_all s n r)"
  using assms
proof (induction s n r rule: replace_all.induct)
  case (1 n r)
  then show ?case by simp
next
  case (2 c cs n r)
  show ?case
  proof (cases "n \<noteq> [] \<and> take (length n) (c # cs) = n")
    case True
    let ?R = "replace_all (drop (length n) (c # cs)) n r"
    have ih: "\<not> occurs n ?R" using "2.IH"(1) [OF True] "2.prems" by blast
    have "r = hd r # tl r" using "2.prems"(3) by simp
    then have "occurs n (r @ ?R) = (take (length n) (r @ ?R) = n \<or> occurs n (tl r @ ?R))"
      by (metis append_Cons occurs.simps(2))
    also have "\<dots> = occurs n ?R"
      using "2.prems"(1,5,6) occurs_skip by blast
    finally show ?thesis using True ih by simp
  next
    case False
    let ?R = "replace_all cs n r"
    have ih: "\<not> occurs n ?R" using "2.IH"(2) [OF False] "2.prems" by blast
    have nt: "take (length n) (c # ?R) \<noteq> n"
    proof
      assume eq: "take (length n) (c # ?R) = n"
      obtain a n' where n: "n = a # n'" using "2.prems"(1) by (cases n) auto
      have c: "c = a" and t: "take (length n') ?R = n'" using eq n by simp_all
      have "hd r \<notin> set (take (length n') ?R)" using t n "2.prems"(2,4) by simp
      then have "take (length n') ?R = take (length n') cs"
        using "2.prems"(3) by (rule replace_all_copies_prefix [rotated])
      then have "take (length n) (c # cs) = n" using c t n by simp
      then show False using False "2.prems"(1) by simp
    qed
    have rc: "replace_all (c # cs) n r = c # ?R" using False by auto
    show ?thesis unfolding rc using ih nt by simp
  qed
qed

lemma replace_all_inserts:
  "occurs n s \<Longrightarrow> n \<noteq> [] \<Longrightarrow> occurs r (replace_all s n r)"
proof (induction s n r rule: replace_all.induct)
  case (1 n r)
  then show ?case by simp
next
  case (2 c cs n r)
  show ?case
  proof (cases "take (length n) (c # cs) = n")
    case True
    then show ?thesis using "2.prems"(2) by (simp add: occurs_prefix)
  next
    case False
    then have "occurs n cs" using "2.prems"(1) by simp
    then have "occurs r (replace_all cs n r)" using "2.IH"(2) False "2.prems"(2) by blast
    then show ?thesis using False by (cases r) (auto simp: occurs_Nil_needle)
  qed
qed

end
