(* ===== verification/Module_Base.thy ===== *)
theory Module_Base
  imports Prelude
begin

text \<open>
  The base class \<open>module<Impl>\<close> shared by every driving strategy
  (\<open>modules/meta/base.hpp\<close> and \<open>base.inl\<close> in polybar; not among the sources
  of this repository, so modelled from the spec, sections 4.1, 4.2 and 5).
  The C++ class is a CRTP template over the concrete module \<open>Impl\<close>; the
  record \<open>'impl module\<close> is parameterised the same way: the base fields, and
  the concrete module's own state in \<open>m_impl\<close>.

  Every operation appends what it does to \<open>m_trace\<close>, the sequence of
  observable actions of the module (lock, unlock, calls into the module,
  broadcasts, sleeps, wake-ups, halts), so that ordering properties of the
  runners are statements about that list.
\<close>

datatype action =
    ALock                        \<comment> \<open>\<open>m_contentlock\<close> acquired by the worker\<close>
  | AUnlock                      \<comment> \<open>\<open>m_contentlock\<close> released\<close>
  | AHasEvent "string + bool"    \<comment> \<open>\<open>has_event()\<close> returned, or raised\<close>
  | AUpdate "string + bool"      \<comment> \<open>\<open>update()\<close> returned changed/unchanged, or raised\<close>
  | ABroadcast                   \<comment> \<open>\<open>broadcast()\<close>: notify the aggregation sink\<close>
  | AIdle                        \<comment> \<open>\<open>idle()\<close> slept\<close>
  | ASleep nat                   \<comment> \<open>\<open>sleep(interval)\<close> of the timer strategy\<close>
  | AWakeup                      \<comment> \<open>\<open>wakeup()\<close>: \<open>m_sleephandler.notify_all()\<close>\<close>
  | AHalt string                 \<comment> \<open>\<open>halt(msg)\<close> logged the error\<close>
  | AStop                        \<comment> \<open>\<open>stop()\<close> cleared \<open>m_enabled\<close>\<close>

record 'impl module =
  m_name :: string
  m_enabled :: bool          \<comment> \<open>\<open>atomic<bool> m_enabled\<close>, read by \<open>running()\<close>\<close>
  m_thread :: bool           \<comment> \<open>\<open>m_mainthread\<close> is joinable\<close>
  m_changed :: bool          \<comment> \<open>\<open>atomic<bool> m_changed\<close>, set by \<open>broadcast()\<close>\<close>
  m_locked :: bool           \<comment> \<open>the worker holds \<open>m_contentlock\<close>\<close>
  m_errors :: "string list"  \<comment> \<open>messages passed to \<open>halt\<close>\<close>
  m_trace :: "action list"
  m_impl :: 'impl

definition emit :: "action \<Rightarrow> 'impl module \<Rightarrow> 'impl module" where
  "emit a s = s\<lparr>m_trace := m_trace s @ [a]\<rparr>"

definition running :: "'impl module \<Rightarrow> bool" where
  "running s = m_enabled s"

definition wakeup :: "'impl module \<Rightarrow> 'impl module" where
  "wakeup s = emit AWakeup s"

text \<open>
  \<open>stop()\<close> returns at once when the module is no longer enabled; otherwise it
  clears \<open>m_enabled\<close> and wakes the worker so that a timed sleep ends early.
  \<open>halt(msg)\<close> logs the message, then calls \<open>stop()\<close>.
\<close>

definition mod_stop :: "'impl module \<Rightarrow> 'impl module" where
  "mod_stop s = (if \<not> m_enabled s then s else wakeup (emit AStop (s\<lparr>m_enabled := False\<rparr>)))"

definition halt :: "string \<Rightarrow> 'impl module \<Rightarrow> 'impl module" where
  "halt msg s = mod_stop (emit (AHalt msg) (s\<lparr>m_errors := m_errors s @ [msg]\<rparr>))"

definition broadcast :: "'impl module \<Rightarrow> 'impl module" where
  "broadcast s = emit ABroadcast (s\<lparr>m_changed := True\<rparr>)"

text \<open>\<open>idle()\<close> sleeps a short while, but only while the module runs.\<close>

definition idle :: "'impl module \<Rightarrow> 'impl module" where
  "idle s = (if running s then emit AIdle s else s)"

definition content_lock :: "'impl module \<Rightarrow> 'impl module" where
  "content_lock s = emit ALock (s\<lparr>m_locked := True\<rparr>)"

definition content_unlock :: "'impl module \<Rightarrow> 'impl module" where
  "content_unlock s = emit AUnlock (s\<lparr>m_locked := False\<rparr>)"

text \<open>
  \<open>CAST_MOD(Impl)->update()\<close>: the concrete module's update runs on its own
  state and either returns whether the content changed or raises an
  exception (\<open>Inl\<close> with the message); a raising update may already have
  changed the module's state, so the new state is returned in both cases.
\<close>

type_synonym 'impl update_fn = "'impl \<Rightarrow> (string + bool) \<times> 'impl"

definition call_update :: "'impl update_fn \<Rightarrow> 'impl module \<Rightarrow> (string + bool) \<times> 'impl module" where
  "call_update f s = (case f (m_impl s) of (r, i) \<Rightarrow> (r, emit (AUpdate r) (s\<lparr>m_impl := i\<rparr>)))"

declare emit_def [module_defs] running_def [module_defs] wakeup_def [module_defs]
  mod_stop_def [module_defs] halt_def [module_defs] broadcast_def [module_defs]
  idle_def [module_defs] content_lock_def [module_defs] content_unlock_def [module_defs]
  call_update_def [module_defs]

subsection \<open>Lifecycle\<close>

text \<open>How a worker loop ended: it returned, it raised (the message), or it is still
  looping when the schedule of the model is used up.\<close>

datatype loop_status = Exited | Raised string | Pending

text \<open>
  The spec's lifecycle (section 3): Idle until \<open>start\<close>, Running while the
  worker loops, Halted after \<open>halt\<close> or \<open>stop\<close>, and Halted is terminal. In the
  code the state is not a field: it is read off \<open>m_enabled\<close> and whether the
  worker thread was spawned.
\<close>

datatype lifecycle = Idle | Running | Halted

definition lifecycle_of :: "'impl module \<Rightarrow> lifecycle" where
  "lifecycle_of s = (if \<not> m_enabled s then Halted else if m_thread s then Running else Idle)"

text \<open>
  The abstract machine of the spec, with one more transition the code has:
  \<open>stop()\<close> on a module whose thread was never started halts it from Idle.
\<close>

inductive lc_step :: "lifecycle \<Rightarrow> lifecycle \<Rightarrow> bool" where
  lc_start: "lc_step Idle Running"
| lc_halt: "lc_step Running Halted"
| lc_stop_idle: "lc_step Idle Halted"

text \<open>
  The base operations as one datatype with a step function: the interface the
  scheduler, the sink and the strategies agree on.
\<close>

datatype base_op = OpStop | OpHalt string | OpBroadcast | OpWakeup | OpIdle | OpLock | OpUnlock

fun base_apply :: "base_op \<Rightarrow> 'impl module \<Rightarrow> 'impl module" where
  "base_apply OpStop s = mod_stop s"
| "base_apply (OpHalt msg) s = halt msg s"
| "base_apply OpBroadcast s = broadcast s"
| "base_apply OpWakeup s = wakeup s"
| "base_apply OpIdle s = idle s"
| "base_apply OpLock s = content_lock s"
| "base_apply OpUnlock s = content_unlock s"

subsection \<open>Trace predicates\<close>

text \<open>
  \<open>lock_walk held tr\<close> follows the content lock along a trace: \<open>None\<close> when
  the trace locks a held (non-recursive) mutex, unlocks a free one, calls
  \<open>update\<close> or \<open>has_event\<close> without the lock, or sleeps while holding it;
  otherwise \<open>Some\<close> of whether the lock is held at the end.
\<close>

fun lock_walk :: "bool \<Rightarrow> action list \<Rightarrow> bool option" where
  "lock_walk h [] = Some h"
| "lock_walk h (ALock # xs) = (if h then None else lock_walk True xs)"
| "lock_walk h (AUnlock # xs) = (if h then lock_walk False xs else None)"
| "lock_walk h (AUpdate r # xs) = (if h then lock_walk h xs else None)"
| "lock_walk h (AHasEvent r # xs) = (if h then lock_walk h xs else None)"
| "lock_walk h (AIdle # xs) = (if h then None else lock_walk h xs)"
| "lock_walk h (ASleep d # xs) = (if h then None else lock_walk h xs)"
| "lock_walk h (x # xs) = lock_walk h xs"

definition is_update :: "action \<Rightarrow> bool" where
  "is_update a = (case a of AUpdate _ \<Rightarrow> True | _ \<Rightarrow> False)"

definition new_actions :: "'impl module \<Rightarrow> 'impl module \<Rightarrow> action list" where
  "new_actions s s' = drop (length (m_trace s)) (m_trace s')"

subsection \<open>Frame lemmas\<close>

lemma emit_fields [simp]:
  "m_enabled (emit a s) = m_enabled s" "m_thread (emit a s) = m_thread s"
  "m_locked (emit a s) = m_locked s" "m_impl (emit a s) = m_impl s"
  "m_errors (emit a s) = m_errors s" "m_changed (emit a s) = m_changed s"
  "m_trace (emit a s) = m_trace s @ [a]"
  by (simp_all add: emit_def)

lemma base_fields [simp]:
  "m_thread (mod_stop s) = m_thread s" "m_impl (mod_stop s) = m_impl s"
  "m_locked (mod_stop s) = m_locked s"
  "m_thread (halt msg s) = m_thread s" "m_impl (halt msg s) = m_impl s"
  "m_locked (halt msg s) = m_locked s"
  "m_enabled (broadcast s) = m_enabled s" "m_thread (broadcast s) = m_thread s"
  "m_locked (broadcast s) = m_locked s" "m_impl (broadcast s) = m_impl s"
  "m_enabled (wakeup s) = m_enabled s" "m_thread (wakeup s) = m_thread s"
  "m_locked (wakeup s) = m_locked s" "m_impl (wakeup s) = m_impl s"
  "m_enabled (idle s) = m_enabled s" "m_thread (idle s) = m_thread s"
  "m_locked (idle s) = m_locked s" "m_impl (idle s) = m_impl s"
  "m_enabled (content_lock s) = m_enabled s" "m_thread (content_lock s) = m_thread s"
  "m_locked (content_lock s) = True" "m_impl (content_lock s) = m_impl s"
  "m_enabled (content_unlock s) = m_enabled s" "m_thread (content_unlock s) = m_thread s"
  "m_locked (content_unlock s) = False" "m_impl (content_unlock s) = m_impl s"
  by (simp_all add: module_defs)

lemma enabled_stop_halt [simp]:
  "m_enabled (mod_stop s) = False" "m_enabled (halt msg s) = False"
  by (simp_all add: module_defs)

lemma trace_ops [trace_simps]:
  "m_trace (wakeup s) = m_trace s @ [AWakeup]"
  "m_trace (broadcast s) = m_trace s @ [ABroadcast]"
  "m_trace (content_lock s) = m_trace s @ [ALock]"
  "m_trace (content_unlock s) = m_trace s @ [AUnlock]"
  "m_trace (idle s) = m_trace s @ (if m_enabled s then [AIdle] else [])"
  "m_trace (mod_stop s) = m_trace s @ (if m_enabled s then [AStop, AWakeup] else [])"
  "m_trace (halt msg s) = m_trace s @ AHalt msg # (if m_enabled s then [AStop, AWakeup] else [])"
  by (simp_all add: module_defs)

lemma call_update_simps [simp]:
  "f (m_impl s) = (r, i) \<Longrightarrow> call_update f s = (r, emit (AUpdate r) (s\<lparr>m_impl := i\<rparr>))"
  by (simp add: call_update_def)

lemma base_apply_thread [simp]: "m_thread (base_apply op s) = m_thread s"
  by (cases op) simp_all

lemma base_apply_enabled: "m_enabled (base_apply op s) \<longrightarrow> m_enabled s"
  by (cases op) simp_all

subsection \<open>Lifecycle lemmas\<close>

inductive_cases lc_step_HaltedE [elim!]: "lc_step Halted l"

lemma base_apply_lifecycle:
  "lifecycle_of (base_apply op s) = lifecycle_of s
   \<or> lc_step (lifecycle_of s) (lifecycle_of (base_apply op s))"
  by (cases op) (auto simp: lifecycle_of_def intro: lc_step.intros)

lemma base_apply_halted: "lifecycle_of s = Halted \<Longrightarrow> lifecycle_of (base_apply op s) = Halted"
  using base_apply_lifecycle [of op s] by auto

lemma lc_steps_from_Halted: "lc_step\<^sup>*\<^sup>* Halted l \<Longrightarrow> l = Halted"
  by (induction rule: rtranclp_induct) auto

lemma lifecycle_Halted_iff: "lifecycle_of s = Halted \<longleftrightarrow> \<not> running s"
  by (simp add: lifecycle_of_def running_def)

lemma lock_walk_append:
  "lock_walk h (xs @ ys) = Option.bind (lock_walk h xs) (\<lambda>h'. lock_walk h' ys)"
  by (induction h xs rule: lock_walk.induct) simp_all

lemma is_update_simps [simp]:
  "is_update (AUpdate r)" "\<not> is_update ALock" "\<not> is_update AUnlock"
  "\<not> is_update (AHasEvent r)" "\<not> is_update ABroadcast" "\<not> is_update AIdle"
  "\<not> is_update (ASleep d)" "\<not> is_update AWakeup" "\<not> is_update (AHalt m)"
  "\<not> is_update AStop"
  by (simp_all add: is_update_def)

lemma new_actions_append [simp]: "new_actions s (s'\<lparr>m_trace := m_trace s @ d\<rparr>) = d"
  by (simp add: new_actions_def)

lemma new_actions_eq: "m_trace s' = m_trace s @ d \<Longrightarrow> new_actions s s' = d"
  by (simp add: new_actions_def)

end
