(* ===== verification/Event_Module.thy ===== *)
theory Event_Module
  imports Module_Base
begin

text \<open>
  The event-driven strategy, \<open>event_module<Impl>\<close> of
  \<open>src/include/modules/meta/event_module.hpp\<close>. \<open>start()\<close> spawns the worker
  thread; the worker's \<open>runner()\<close> does one warm-up evaluation under the
  content lock, then loops while \<open>running()\<close>: under the lock it asks the
  module \<open>has_event()\<close> and, only if so, calls \<open>update()\<close>; it broadcasts when
  the update reports a change and then calls \<open>idle()\<close>. An exception anywhere
  in the runner is caught and turned into \<open>halt(err.what())\<close>.

  The concrete module is given by its two hooks (\<open>'impl ev_ops\<close>). The loop runs
  for as long as the module runs, which another thread ends with \<open>stop()\<close>: the
  argument \<open>sched\<close> says, for each evaluation of \<open>running()\<close>, whether a stop
  from another thread has taken effect just before it. When the schedule is
  used up while the module still runs, the runner is still looping
  (\<open>Pending\<close>): the schedule is the fuel of the model.
\<close>

record 'impl ev_ops =
  op_update :: "'impl update_fn"
  op_has_event :: "'impl \<Rightarrow> (string + bool) \<times> 'impl"

datatype start_error = Terminate
  \<comment> \<open>\<open>std::terminate\<close>: a \<open>std::thread\<close> is move-assigned onto a joinable one\<close>

definition call_has_event ::
  "'impl ev_ops \<Rightarrow> 'impl module \<Rightarrow> (string + bool) \<times> 'impl module" where
  "call_has_event ops s =
     (case op_has_event ops (m_impl s) of (r, i) \<Rightarrow> (r, emit (AHasEvent r) (s\<lparr>m_impl := i\<rparr>)))"

text \<open>
  \<open>start()\<close> (lines 13--15) assigns a new thread to \<open>m_mainthread\<close>; when that
  thread object is still joinable the assignment calls \<open>std::terminate\<close>.
\<close>

definition ev_start :: "'impl module \<Rightarrow> start_error + 'impl module" where
  "ev_start s = (if m_thread s then Inl Terminate else Inr (s\<lparr>m_thread := True\<rparr>))"

text \<open>
  The warm-up (lines 22--25): lock, \<open>update()\<close>, \<open>broadcast()\<close>, unlock. The
  broadcast is issued whatever \<open>update()\<close> returned, and before the lock is
  released. An exception from \<open>update()\<close> unwinds through the \<open>unique_lock\<close>,
  whose destructor releases the lock.
\<close>

definition ev_warmup :: "'impl ev_ops \<Rightarrow> 'impl module \<Rightarrow> (string + unit) \<times> 'impl module" where
  "ev_warmup ops s =
     (case call_update (op_update ops) (content_lock s) of
        (Inl e, s1) \<Rightarrow> (Inl e, content_unlock s1)
      | (Inr _, s1) \<Rightarrow> (Inr (), content_unlock (broadcast s1)))"

text \<open>
  The lambda \<open>check\<close> (lines 27--30): under a \<open>lock_guard\<close>,
  \<open>has_event() && update()\<close>, with the short-circuit of \<open>&&\<close>.
\<close>

definition ev_check :: "'impl ev_ops \<Rightarrow> 'impl module \<Rightarrow> (string + bool) \<times> 'impl module" where
  "ev_check ops s =
     (case call_has_event ops (content_lock s) of
        (Inr True, s1) \<Rightarrow>
          (case call_update (op_update ops) s1 of (r, s2) \<Rightarrow> (r, content_unlock s2))
      | (r, s1) \<Rightarrow> (r, content_unlock s1))"

text \<open>One pass of the loop body (lines 33--36).\<close>

definition ev_iteration :: "'impl ev_ops \<Rightarrow> 'impl module \<Rightarrow> (string + unit) \<times> 'impl module" where
  "ev_iteration ops s =
     (case ev_check ops s of
        (Inl e, s1) \<Rightarrow> (Inl e, s1)
      | (Inr c, s1) \<Rightarrow> (Inr (), idle (if c then broadcast s1 else s1)))"

text \<open>The loop \<open>while (this->running())\<close> (line 32).\<close>

fun ev_loop :: "'impl ev_ops \<Rightarrow> bool list \<Rightarrow> 'impl module \<Rightarrow> loop_status \<times> 'impl module" where
  "ev_loop ops [] s = (if running s then Pending else Exited, s)"
| "ev_loop ops (stop # sched) s =
     (let s0 = (if stop then mod_stop s else s) in
      if \<not> running s0 then (Exited, s0)
      else (case ev_iteration ops s0 of
              (Inl e, s1) \<Rightarrow> (Raised e, s1)
            | (Inr _, s1) \<Rightarrow> ev_loop ops sched s1))"

text \<open>\<open>runner()\<close> (lines 18--41): warm-up and loop inside one \<open>try\<close>.\<close>

definition ev_runner :: "'impl ev_ops \<Rightarrow> bool list \<Rightarrow> 'impl module \<Rightarrow> loop_status \<times> 'impl module" where
  "ev_runner ops sched s =
     (case ev_warmup ops s of
        (Inl e, s1) \<Rightarrow> (Raised e, halt e s1)
      | (Inr _, s1) \<Rightarrow>
          (case ev_loop ops sched s1 of
             (Raised e, s2) \<Rightarrow> (Raised e, halt e s2)
           | r \<Rightarrow> r))"

text \<open>
  What one pass of the loop may leave in the trace: the lock is taken and
  given back, every broadcast answers an update that reported a change, and
  every update answers a \<open>has_event()\<close> that returned true.
\<close>

definition loop_block :: "action list \<Rightarrow> bool" where
  "loop_block d \<longleftrightarrow> lock_walk False d = Some False
     \<and> count_list d ABroadcast = count_list d (AUpdate (Inr True))
     \<and> length (filter is_update d) = count_list d (AHasEvent (Inr True))"

text \<open>\<open>stop_last d st\<close>: a stop recorded in \<open>d\<close> is its last action but the
  wake-up that \<open>stop()\<close> issues, and it ended the loop.\<close>

definition stop_last :: "action list \<Rightarrow> loop_status \<Rightarrow> bool" where
  "stop_last d st \<longleftrightarrow>
     (AStop \<in> set d \<longrightarrow> st = Exited \<and> (\<exists>a. d = a @ [AStop, AWakeup] \<and> AStop \<notin> set a))"

text \<open>
  The module as the scheduler sees it: base operations from other threads, and
  \<open>start()\<close>, which spawns the worker thread; the worker runs \<open>runner()\<close> (here
  to the end of its schedule). \<open>None\<close>: the process was terminated.
\<close>

datatype mod_event = Base base_op | Start "bool list"

fun mod_apply :: "'impl ev_ops \<Rightarrow> mod_event \<Rightarrow> 'impl module \<Rightarrow> 'impl module option" where
  "mod_apply ops (Base op) s = Some (base_apply op s)"
| "mod_apply ops (Start sched) s =
     (case ev_start s of Inl Terminate \<Rightarrow> None | Inr s1 \<Rightarrow> Some (snd (ev_runner ops sched s1)))"

fun mod_run :: "'impl ev_ops \<Rightarrow> mod_event list \<Rightarrow> 'impl module \<Rightarrow> 'impl module option" where
  "mod_run ops [] s = Some s"
| "mod_run ops (e # es) s = (case mod_apply ops e s of None \<Rightarrow> None | Some s' \<Rightarrow> mod_run ops es s')"

text \<open>A small instance for the witnesses: a counter module whose update always
  reports a change and whose event source is always ready, a module whose update
  always raises, and a started, running module.\<close>

definition demo_ops :: "nat ev_ops" where
  "demo_ops = \<lparr>op_update = (\<lambda>n. (Inr True, Suc n)), op_has_event = (\<lambda>n. (Inr True, n))\<rparr>"

definition fail_ops :: "nat ev_ops" where
  "fail_ops = \<lparr>op_update = (\<lambda>n. (Inl ''update failed'', n)), op_has_event = (\<lambda>n. (Inr True, n))\<rparr>"

definition demo_module :: "nat module" where
  "demo_module = \<lparr>m_name = ''demo'', m_enabled = True, m_thread = True, m_changed = False,
     m_locked = False, m_errors = [], m_trace = [], m_impl = 0\<rparr>"

declare call_has_event_def [module_defs] ev_start_def [module_defs]

subsection \<open>The phases, action by action\<close>

lemma loop_block_Nil [simp]: "loop_block []"
  by (simp add: loop_block_def)

lemma loop_block_append [intro]: "loop_block a \<Longrightarrow> loop_block b \<Longrightarrow> loop_block (a @ b)"
  by (simp add: loop_block_def lock_walk_append)

lemma loop_block_stop [simp]: "loop_block [AStop, AWakeup]"
  by (simp add: loop_block_def)

lemma ev_warmup_step:
  assumes "op_update ops (m_impl s) = (r, i)"
  shows "fst (ev_warmup ops s) = (case r of Inl e \<Rightarrow> Inl e | Inr _ \<Rightarrow> Inr ())"
    and "m_enabled (snd (ev_warmup ops s)) = m_enabled s"
    and "m_thread (snd (ev_warmup ops s)) = m_thread s"
    and "\<not> m_locked (snd (ev_warmup ops s))"
    and "m_trace (snd (ev_warmup ops s)) = m_trace s @ [ALock, AUpdate r] @
           (case r of Inl _ \<Rightarrow> [AUnlock] | Inr _ \<Rightarrow> [ABroadcast, AUnlock])"
  using assms by (cases r; simp add: ev_warmup_def module_defs)+

lemma ev_check_step:
  assumes "ev_check ops s = (r, s')" and "fst (op_has_event ops (m_impl s)) = h"
  shows "m_enabled s' = m_enabled s \<and> m_thread s' = m_thread s \<and> \<not> m_locked s'
         \<and> m_trace s' = m_trace s @ [ALock, AHasEvent h] @
                  (if h = Inr True then [AUpdate r] else []) @ [AUnlock]
         \<and> (h \<noteq> Inr True \<longrightarrow> r = h)
         \<and> (h = Inr True \<longrightarrow> r = fst (op_update ops (snd (op_has_event ops (m_impl s)))))"
proof -
  obtain i1 where h: "op_has_event ops (m_impl s) = (h, i1)"
    using assms(2) by (cases "op_has_event ops (m_impl s)") auto
  obtain u i2 where u: "op_update ops i1 = (u, i2)" by fastforce
  define s1 where "s1 = emit (AHasEvent h) ((content_lock s)\<lparr>m_impl := i1\<rparr>)"
  have cl: "call_has_event ops (content_lock s) = (h, s1)"
    using h by (simp add: call_has_event_def s1_def)
  show ?thesis
  proof (cases "h = Inr True")
    case True
    have "call_update (op_update ops) s1 = (u, emit (AUpdate u) (s1\<lparr>m_impl := i2\<rparr>))"
      using u by (simp add: s1_def)
    with assms(1) True cl have "r = u \<and> s' = content_unlock (emit (AUpdate u) (s1\<lparr>m_impl := i2\<rparr>))"
      by (auto simp: ev_check_def)
    then show ?thesis using True h u by (auto simp: s1_def trace_simps)
  next
    case False
    then have "ev_check ops s = (h, content_unlock s1)"
      using cl by (cases h) (simp_all add: ev_check_def)
    with assms(1) have "r = h" "s' = content_unlock s1" by simp_all
    then show ?thesis using False by (simp add: s1_def trace_simps)
  qed
qed

lemma ev_iteration_step:
  assumes "ev_iteration ops s = (r, s')" "m_enabled s"
  shows "m_enabled s' \<and> m_thread s' = m_thread s \<and> \<not> m_locked s'
         \<and> (\<exists>d. m_trace s' = m_trace s @ d \<and> loop_block d \<and> AStop \<notin> set d)"
proof -
  obtain c s1 where c: "ev_check ops s = (c, s1)" by fastforce
  define h where "h = fst (op_has_event ops (m_impl s))"
  from ev_check_step [OF c h_def [symmetric]] have
    f: "m_enabled s1 = m_enabled s" "m_thread s1 = m_thread s" "\<not> m_locked s1" and
    tr: "m_trace s1 = m_trace s @ [ALock, AHasEvent h] @
           (if h = Inr True then [AUpdate c] else []) @ [AUnlock]" and
    hc: "h \<noteq> Inr True \<longrightarrow> c = h"
    by blast+
  show ?thesis
  proof (cases c)
    case (Inl e)
    with assms c f tr hc show ?thesis
      by (auto simp: ev_iteration_def loop_block_def)
  next
    case (Inr b)
    with assms(1) c have s': "s' = idle (if b then broadcast s1 else s1)"
      by (simp add: ev_iteration_def)
    have "m_trace s' = m_trace s1 @ (if b then [ABroadcast] else []) @ [AIdle]"
      using f assms(2) by (simp add: s' trace_simps)
    with Inr f tr hc assms(2) show ?thesis
      by (cases b) (auto simp: s' loop_block_def)
  qed
qed

lemma stop_last_Nil [simp]: "stop_last [] st"
  by (simp add: stop_last_def)

lemma stop_last_prepend: "AStop \<notin> set a \<Longrightarrow> stop_last d st \<Longrightarrow> stop_last (a @ d) st"
  unfolding stop_last_def by (metis Un_iff append.assoc set_append)

lemma ev_loop_step:
  assumes "ev_loop ops sched s = (st, s')"
  shows "m_thread s' = m_thread s \<and> (\<not> m_locked s \<longrightarrow> \<not> m_locked s')
         \<and> (st = Exited \<longleftrightarrow> \<not> m_enabled s')
         \<and> (\<exists>d. m_trace s' = m_trace s @ d \<and> loop_block d \<and> stop_last d st)"
  using assms
proof (induction ops sched s arbitrary: st s' rule: ev_loop.induct)
  case (1 ops s)
  then show ?case by (auto simp: running_def)
next
  case (2 ops stop sched s)
  show ?case
  proof (cases "running (if stop then mod_stop s else s)")
    case False
    then have st: "st = Exited" and s': "s' = (if stop then mod_stop s else s)"
      using "2.prems" by (simp_all add: Let_def)
    show ?thesis
    proof (cases "stop \<and> m_enabled s")
      case True
      then have "m_trace s' = m_trace s @ [AStop, AWakeup]" by (simp add: s' trace_ops)
      moreover have "stop_last [AStop, AWakeup] st" by (simp add: stop_last_def st)
      ultimately show ?thesis using True s' st by fastforce
    next
      case False
      then have s0: "(if stop then mod_stop s else s) = s" by (auto simp: mod_stop_def)
      with \<open>\<not> running _\<close> have "\<not> m_enabled s" by (simp add: running_def)
      with s0 s' st show ?thesis by auto
    qed
  next
    case True
    then have s0: "(if stop then mod_stop s else s) = s" and en: "m_enabled s"
      by (cases stop; cases "m_enabled s"; simp add: running_def mod_stop_def)+
    obtain r s1 where it: "ev_iteration ops s = (r, s1)" by fastforce
    from ev_iteration_step [OF it en] obtain d1 where
      f1: "m_enabled s1" "m_thread s1 = m_thread s" "\<not> m_locked s1" and
      d1: "m_trace s1 = m_trace s @ d1" "loop_block d1" "AStop \<notin> set d1"
      by blast
    show ?thesis
    proof (cases r)
      case (Inl e)
      with "2.prems" True s0 it have "st = Raised e" "s' = s1" by (simp_all add: Let_def)
      with f1 d1 show ?thesis by (auto simp: stop_last_def)
    next
      case (Inr u)
      with "2.prems" True s0 it have rest: "ev_loop ops sched s1 = (st, s')"
        by (simp add: Let_def)
      have IH: "m_thread s' = m_thread s1 \<and> (\<not> m_locked s1 \<longrightarrow> \<not> m_locked s')
            \<and> (st = Exited \<longleftrightarrow> \<not> m_enabled s')
            \<and> (\<exists>d. m_trace s' = m_trace s1 @ d \<and> loop_block d \<and> stop_last d st)"
      proof -
        have it': "ev_iteration ops (if stop then mod_stop s else s) = (r, s1)"
          by (simp only: s0 it)
        show ?thesis using "2.IH" [OF refl _ it' [symmetric] Inr rest] True by simp
      qed
      then obtain d2 where d2: "m_trace s' = m_trace s1 @ d2" "loop_block d2" "stop_last d2 st"
        by blast
      have "m_trace s' = m_trace s @ (d1 @ d2)" using d1(1) d2(1) by simp
      moreover have "loop_block (d1 @ d2)" using d1(2) d2(2) ..
      moreover have "stop_last (d1 @ d2) st" using d1(3) d2(3) by (rule stop_last_prepend)
      ultimately show ?thesis using IH f1 by blast
    qed
  qed
qed

lemma ev_runner_warm_raise:
  assumes "fst (op_update ops (m_impl s)) = Inl e"
  shows "fst (ev_runner ops sched s) = Raised e"
    and "m_trace (snd (ev_runner ops sched s)) = m_trace s @
           [ALock, AUpdate (Inl e), AUnlock, AHalt e] @ (if m_enabled s then [AStop, AWakeup] else [])"
    and "\<not> m_enabled (snd (ev_runner ops sched s))" "\<not> m_locked (snd (ev_runner ops sched s))"
    and "m_thread (snd (ev_runner ops sched s)) = m_thread s"
proof -
  obtain i where u: "op_update ops (m_impl s) = (Inl e, i)" using assms by (cases "op_update ops (m_impl s)") auto
  note w = ev_warmup_step [OF u]
  obtain s1 where ws: "ev_warmup ops s = (Inl e, s1)"
    using w(1) by (cases "ev_warmup ops s") auto
  have run: "ev_runner ops sched s = (Raised e, halt e (snd (ev_warmup ops s)))"
    by (simp add: ev_runner_def ws)
  show "fst (ev_runner ops sched s) = Raised e" by (simp add: run)
  show "m_trace (snd (ev_runner ops sched s)) = m_trace s @
           [ALock, AUpdate (Inl e), AUnlock, AHalt e] @ (if m_enabled s then [AStop, AWakeup] else [])"
    using w(2,5) by (simp add: run trace_ops)
  show "\<not> m_enabled (snd (ev_runner ops sched s))" "\<not> m_locked (snd (ev_runner ops sched s))"
    "m_thread (snd (ev_runner ops sched s)) = m_thread s"
    using w(3,4) by (simp_all add: run)
qed

lemma ev_runner_warm_ok:
  assumes "fst (op_update ops (m_impl s)) = Inr b"
  shows "\<exists>s1 st s2. ev_loop ops sched s1 = (st, s2)
           \<and> m_trace s1 = m_trace s @ [ALock, AUpdate (Inr b), ABroadcast, AUnlock]
           \<and> m_enabled s1 = m_enabled s \<and> m_thread s1 = m_thread s \<and> \<not> m_locked s1
           \<and> ev_runner ops sched s = (case st of Raised e \<Rightarrow> (Raised e, halt e s2) | _ \<Rightarrow> (st, s2))"
proof -
  obtain i where u: "op_update ops (m_impl s) = (Inr b, i)"
    using assms by (cases "op_update ops (m_impl s)") auto
  note w = ev_warmup_step [OF u]
  obtain s1 where ws: "ev_warmup ops s = (Inr (), s1)"
    using w(1) by (cases "ev_warmup ops s") auto
  obtain st s2 where l: "ev_loop ops sched (snd (ev_warmup ops s)) = (st, s2)" by fastforce
  have "ev_runner ops sched s = (case st of Raised e \<Rightarrow> (Raised e, halt e s2) | _ \<Rightarrow> (st, s2))"
    using l by (cases st) (simp_all add: ev_runner_def ws)
  with w(2-5) l show ?thesis by fastforce
qed

lemma ev_loop_not_running: "\<not> m_enabled s \<Longrightarrow> ev_loop ops sched s = (Exited, s)"
  by (cases sched) (simp_all add: running_def mod_stop_def)

lemma ev_loop_stop_in_sched: "True \<in> set sched \<Longrightarrow> fst (ev_loop ops sched s) \<noteq> Pending"
proof (induction ops sched s rule: ev_loop.induct)
  case (1 ops s)
  then show ?case by simp
next
  case (2 ops stop sched s)
  show ?case
  proof (cases "running (if stop then mod_stop s else s)")
    case False
    then show ?thesis by (simp add: Let_def)
  next
    case True
    then have s0: "(if stop then mod_stop s else s) = s" and "\<not> stop"
      by (cases stop; cases "m_enabled s"; simp add: running_def mod_stop_def)+
    with "2.prems" have sch: "True \<in> set sched" by auto
    obtain r s1 where it: "ev_iteration ops s = (r, s1)" by fastforce
    show ?thesis
    proof (cases r)
      case (Inl e)
      with True s0 it show ?thesis by (simp add: Let_def)
    next
      case (Inr u)
      have it': "ev_iteration ops (if stop then mod_stop s else s) = (r, s1)"
        by (simp only: s0 it)
      have "fst (ev_loop ops sched s1) \<noteq> Pending"
        using "2.IH" [OF refl _ it' [symmetric] Inr sch] True by simp
      with True s0 it Inr show ?thesis by (simp add: Let_def)
    qed
  qed
qed

text \<open>Hooks that never raise, and no stop: each test of \<open>running()\<close> finds the
  module running, so every element of the schedule is one more pass, and the
  loop is still running at the end.\<close>

lemma ev_loop_no_stop:
  assumes "m_enabled s" "True \<notin> set sched"
    and "\<forall>i. \<not> isl (fst (op_update ops i))" "\<forall>i. \<not> isl (fst (op_has_event ops i))"
  shows "fst (ev_loop ops sched s) = Pending
         \<and> count_list (new_actions s (snd (ev_loop ops sched s))) AIdle = length sched"
  using assms(1,2)
proof (induction sched arbitrary: s)
  case Nil
  then show ?case by (simp add: running_def new_actions_def)
next
  case (Cons stop sched)
  then have ns: "\<not> stop" by simp
  obtain c s1 where c: "ev_check ops s = (c, s1)" by fastforce
  define h where "h = fst (op_has_event ops (m_impl s))"
  note cs = ev_check_step [OF c h_def [symmetric]]
  have f: "m_enabled s1 = m_enabled s"
    and tr: "m_trace s1 = m_trace s @ [ALock, AHasEvent h] @
           (if h = Inr True then [AUpdate c] else []) @ [AUnlock]"
    using cs by blast+
  have h_ok: "\<not> isl h" using assms(4) by (simp add: h_def)
  obtain b where cb: "c = Inr b"
  proof (cases "h = Inr True")
    case True
    then have "\<not> isl c" using cs assms(3) by simp
    then show ?thesis using that by (cases c) auto
  next
    case False
    then show ?thesis using that cs h_ok by (cases h) auto
  qed
  define s2 where "s2 = idle (if b then broadcast s1 else s1)"
  have it: "ev_iteration ops s = (Inr (), s2)" by (simp add: ev_iteration_def c cb s2_def)
  have en2: "m_enabled s2" using f Cons.prems(1) by (simp add: s2_def)
  have tr2: "m_trace s2 = m_trace s1 @ (if b then [ABroadcast] else []) @ [AIdle]"
    using f Cons.prems(1) by (simp add: s2_def trace_simps)
  have IH: "fst (ev_loop ops sched s2) = Pending
            \<and> count_list (new_actions s2 (snd (ev_loop ops sched s2))) AIdle = length sched"
    using Cons.IH en2 Cons.prems(2) by simp
  obtain d where d: "m_trace (snd (ev_loop ops sched s2)) = m_trace s2 @ d"
    using ev_loop_step [of ops sched s2 "fst (ev_loop ops sched s2)" "snd (ev_loop ops sched s2)"]
    by auto
  have loop: "ev_loop ops (stop # sched) s = ev_loop ops sched s2"
    using ns Cons.prems(1) it by (simp add: running_def)
  define e where "e = [ALock, AHasEvent h] @ (if h = Inr True then [AUpdate c] else []) @
                       [AUnlock] @ (if b then [ABroadcast] else []) @ [AIdle]"
  have e1: "count_list e AIdle = 1" by (simp add: e_def)
  have "m_trace s2 = m_trace s @ e" using tr tr2 by (simp add: e_def)
  with d have "new_actions s (snd (ev_loop ops sched s2)) = e @ d"
    by (simp add: new_actions_eq)
  moreover have "new_actions s2 (snd (ev_loop ops sched s2)) = d"
    using d by (rule new_actions_eq)
  ultimately show ?case unfolding loop using IH e1 by simp
qed

lemma ev_runner_ok_shape:
  assumes "fst (op_update ops (m_impl s)) = Inr b"
  shows "\<exists>d2. m_trace (snd (ev_runner ops sched s)) = m_trace s @
              [ALock, AUpdate (Inr b), ABroadcast, AUnlock] @ d2 @
              (case fst (ev_runner ops sched s) of Raised e \<Rightarrow> [AHalt e, AStop, AWakeup] | _ \<Rightarrow> [])
           \<and> loop_block d2 \<and> stop_last d2 (fst (ev_runner ops sched s))
           \<and> \<not> m_locked (snd (ev_runner ops sched s))
           \<and> m_thread (snd (ev_runner ops sched s)) = m_thread s
           \<and> (fst (ev_runner ops sched s) = Pending \<longleftrightarrow> m_enabled (snd (ev_runner ops sched s)))"
proof -
  obtain s1 st s2 where l: "ev_loop ops sched s1 = (st, s2)"
    and t1: "m_trace s1 = m_trace s @ [ALock, AUpdate (Inr b), ABroadcast, AUnlock]"
    and f1: "m_thread s1 = m_thread s" "\<not> m_locked s1"
    and run: "ev_runner ops sched s = (case st of Raised e \<Rightarrow> (Raised e, halt e s2) | _ \<Rightarrow> (st, s2))"
    using ev_runner_warm_ok [OF assms] by blast
  from ev_loop_step [OF l] f1 obtain d2 where
    f2: "m_thread s2 = m_thread s1" "\<not> m_locked s2" "st = Exited \<longleftrightarrow> \<not> m_enabled s2" and
    d2: "m_trace s2 = m_trace s1 @ d2" "loop_block d2" "stop_last d2 st"
    by blast
  show ?thesis
  proof (cases st)
    case (Raised e)
    with f2(3) have "m_enabled s2" by simp
    with Raised run d2 t1 f1 f2 show ?thesis by (auto simp: trace_ops)
  qed (use run d2 t1 f1 f2 in auto)
qed

lemma stop_then_wakeup:
  "x \<notin> set c \<Longrightarrow> x \<noteq> y \<Longrightarrow> c @ [x, y] = a @ x # b \<Longrightarrow> b = [y]"
proof (induction c arbitrary: a)
  case Nil
  then show ?case by (cases a) (auto simp: Cons_eq_append_conv)
next
  case (Cons z c)
  then show ?case by (cases a) auto
qed

lemma ev_runner_lifecycle:
  "m_thread (snd (ev_runner ops sched s)) = m_thread s
   \<and> (lifecycle_of (snd (ev_runner ops sched s)) = lifecycle_of s
      \<or> lifecycle_of (snd (ev_runner ops sched s)) = Halted)"
proof (cases "fst (op_update ops (m_impl s))")
  case (Inl e)
  then show ?thesis using ev_runner_warm_raise(3,5) [OF Inl] by (simp add: lifecycle_of_def)
next
  case (Inr b)
  obtain s1 st s2 where l: "ev_loop ops sched s1 = (st, s2)"
    and e1: "m_enabled s1 = m_enabled s" and th: "m_thread s1 = m_thread s"
    and run: "ev_runner ops sched s = (case st of Raised e \<Rightarrow> (Raised e, halt e s2) | _ \<Rightarrow> (st, s2))"
    using ev_runner_warm_ok [OF Inr] by blast
  have th2: "m_thread s2 = m_thread s1" using ev_loop_step [OF l] by blast
  show ?thesis
  proof (cases "m_enabled s")
    case True
    with th th2 show ?thesis by (cases st) (auto simp: run lifecycle_of_def)
  next
    case False
    then have "st = Exited \<and> s2 = s1" using ev_loop_not_running [of s1 ops sched] e1 l by simp
    with False e1 th show ?thesis by (simp add: run lifecycle_of_def)
  qed
qed

lemma mod_apply_lifecycle:
  "mod_apply ops e s = Some s' \<Longrightarrow> lc_step\<^sup>*\<^sup>* (lifecycle_of s) (lifecycle_of s')"
proof (cases e)
  case (Base op)
  assume "mod_apply ops e s = Some s'"
  with Base have "s' = base_apply op s" by simp
  then show ?thesis using base_apply_lifecycle [of op s] by auto
next
  case (Start sched)
  assume a: "mod_apply ops e s = Some s'"
  with Start have nt: "\<not> m_thread s" and s': "s' = snd (ev_runner ops sched (s\<lparr>m_thread := True\<rparr>))"
    by (auto simp: ev_start_def split: if_splits)
  let ?s1 = "s\<lparr>m_thread := True\<rparr>"
  have st1: "lc_step\<^sup>*\<^sup>* (lifecycle_of s) (lifecycle_of ?s1)"
    using nt by (auto simp: lifecycle_of_def intro: lc_step.intros)
  have "lifecycle_of s' = lifecycle_of ?s1 \<or> lifecycle_of s' = Halted"
    using ev_runner_lifecycle [of ops sched ?s1] s' by blast
  moreover have "lc_step\<^sup>*\<^sup>* (lifecycle_of ?s1) Halted"
    by (auto simp: lifecycle_of_def intro: lc_step.intros)
  ultimately show ?thesis using st1 by (auto intro: rtranclp_trans)
qed

lemma mod_run_lifecycle:
  "mod_run ops es s = Some s' \<Longrightarrow> lc_step\<^sup>*\<^sup>* (lifecycle_of s) (lifecycle_of s')"
proof (induction es arbitrary: s)
  case Nil
  then show ?case by simp
next
  case (Cons e es)
  then obtain s1 where s1: "mod_apply ops e s = Some s1" and r: "mod_run ops es s1 = Some s'"
    by (auto split: option.splits)
  show ?case using mod_apply_lifecycle [OF s1] Cons.IH [OF r] by (rule rtranclp_trans)
qed

subsection \<open>Properties of the event-driven strategy\<close>


text \<open>C2. No resurrection: after \<open>halt(msg)\<close>, \<open>running()\<close> is false for good, whatever
  the scheduler and the module's own worker do next (including a new \<open>start()\<close>).\<close>

theorem mod_run_no_resurrection:
  assumes "mod_run ops es (halt msg s) = Some s'"
  shows "\<not> running s'"
proof -
  have "lifecycle_of (halt msg s) = Halted" by (simp add: lifecycle_of_def)
  with mod_run_lifecycle [OF assms] have "lifecycle_of s' = Halted"
    using lc_steps_from_Halted by metis
  then show ?thesis by (simp add: lifecycle_Halted_iff)
qed

text \<open>C3. Warm-up first and only once unconditionally: the first thing the worker does is
  lock the content and call \<open>update()\<close>, before any \<open>has_event()\<close>, whether or not an
  event is pending; every later \<open>update()\<close> answers a \<open>has_event()\<close> that returned true.\<close>

theorem ev_runner_warmup_first:
  "\<exists>d. new_actions s (snd (ev_runner ops sched s)) =
         ALock # AUpdate (fst (op_update ops (m_impl s))) # d
       \<and> length (filter is_update d) = count_list d (AHasEvent (Inr True))"
proof (cases "fst (op_update ops (m_impl s))")
  case (Inl e)
  note r = ev_runner_warm_raise [OF Inl]
  show ?thesis
    by (rule exI [of _ "[AUnlock, AHalt e] @ (if m_enabled s then [AStop, AWakeup] else [])"])
       (simp add: r(2) Inl new_actions_def)
next
  case (Inr b)
  from ev_runner_ok_shape [OF Inr] obtain d2 where
    tr: "m_trace (snd (ev_runner ops sched s)) = m_trace s @
           [ALock, AUpdate (Inr b), ABroadcast, AUnlock] @ d2 @
           (case fst (ev_runner ops sched s) of Raised e \<Rightarrow> [AHalt e, AStop, AWakeup] | _ \<Rightarrow> [])"
    and lb: "loop_block d2"
    by blast
  let ?t = "case fst (ev_runner ops sched s) of Raised e \<Rightarrow> [AHalt e, AStop, AWakeup] | _ \<Rightarrow> []"
  have t: "filter is_update ?t = [] \<and> count_list ?t (AHasEvent (Inr True)) = 0"
    by (cases "fst (ev_runner ops sched s)") simp_all
  show ?thesis
    by (rule exI [of _ "[ABroadcast, AUnlock] @ d2 @ ?t"])
       (use lb t in \<open>simp add: tr Inr new_actions_def loop_block_def\<close>)
qed

text \<open>C4. Lock discipline: along the whole run of the worker the content lock is taken
  only when free and released only when held, \<open>update()\<close> and \<open>has_event()\<close> run only
  under it, the worker never idles while holding it, and it is free when the runner
  returns, on the error paths too.\<close>

theorem ev_runner_lock_discipline:
  "lock_walk False (new_actions s (snd (ev_runner ops sched s))) = Some False
   \<and> \<not> m_locked (snd (ev_runner ops sched s))"
proof (cases "fst (op_update ops (m_impl s))")
  case (Inl e)
  note r = ev_runner_warm_raise [OF Inl]
  show ?thesis using r(2,4) by (simp add: new_actions_def)
next
  case (Inr b)
  from ev_runner_ok_shape [OF Inr] obtain d2 where
    tr: "m_trace (snd (ev_runner ops sched s)) = m_trace s @
           [ALock, AUpdate (Inr b), ABroadcast, AUnlock] @ d2 @
           (case fst (ev_runner ops sched s) of Raised e \<Rightarrow> [AHalt e, AStop, AWakeup] | _ \<Rightarrow> [])"
    and lb: "loop_block d2" and nl: "\<not> m_locked (snd (ev_runner ops sched s))"
    by blast
  have "lock_walk False (case fst (ev_runner ops sched s) of
          Raised e \<Rightarrow> [AHalt e, AStop, AWakeup] | _ \<Rightarrow> []) = Some False"
    by (cases "fst (ev_runner ops sched s)") simp_all
  then show ?thesis using lb nl
    by (simp add: tr new_actions_def lock_walk_append loop_block_def)
qed

text \<open>C5. A module whose \<open>update()\<close> always raises is halted after exactly one evaluation
  attempt, issues no broadcast, and the runner returns through its \<open>catch\<close>.\<close>

theorem ev_runner_failing_update:
  assumes "\<forall>i. isl (fst (op_update ops i))"
  shows "(\<exists>e. fst (ev_runner ops sched s) = Raised e)
         \<and> length (filter is_update (new_actions s (snd (ev_runner ops sched s)))) = 1
         \<and> ABroadcast \<notin> set (new_actions s (snd (ev_runner ops sched s)))
         \<and> \<not> running (snd (ev_runner ops sched s))"
proof -
  have "isl (fst (op_update ops (m_impl s)))" using assms by blast
  then obtain e where e: "fst (op_update ops (m_impl s)) = Inl e"
    by (cases "fst (op_update ops (m_impl s))") auto
  note r = ev_runner_warm_raise [OF e]
  show ?thesis using r(1,2,3) by (simp add: new_actions_def running_def)
qed

text \<open>C6. In the loop, broadcasts answer exactly the updates that reported a change:
  an \<open>update()\<close> that returns ``unchanged'' never triggers a broadcast.\<close>

theorem ev_loop_broadcasts_changed:
  "count_list (new_actions s (snd (ev_loop ops sched s))) ABroadcast =
   count_list (new_actions s (snd (ev_loop ops sched s))) (AUpdate (Inr True))"
proof -
  obtain st s' where l: "ev_loop ops sched s = (st, s')" by fastforce
  from ev_loop_step [OF l] obtain d where "m_trace s' = m_trace s @ d" "loop_block d" by blast
  then show ?thesis by (simp add: l new_actions_def loop_block_def)
qed

text \<open>C7. Termination: once a \<open>stop()\<close> from another thread takes effect at some test of
  \<open>running()\<close>, the runner returns.\<close>

theorem ev_runner_stop_returns:
  assumes "True \<in> set sched"
  shows "fst (ev_runner ops sched s) \<noteq> Pending"
proof (cases "fst (op_update ops (m_impl s))")
  case (Inl e)
  then show ?thesis by (simp add: ev_runner_warm_raise(1))
next
  case (Inr b)
  obtain s1 st s2 where l: "ev_loop ops sched s1 = (st, s2)"
    and run: "ev_runner ops sched s = (case st of Raised e \<Rightarrow> (Raised e, halt e s2) | _ \<Rightarrow> (st, s2))"
    using ev_runner_warm_ok [OF Inr] by blast
  have "st \<noteq> Pending" using ev_loop_stop_in_sched [OF assms, of ops s1] l by simp
  then show ?thesis by (cases st) (simp_all add: run)
qed

text \<open>C8. The event loop runs indefinitely while the module runs: with hooks that do not
  raise and no stop, the worker makes one pass (one \<open>idle()\<close>) per test of \<open>running()\<close>
  and is still looping at the end of any finite schedule.\<close>

theorem ev_runner_loops_while_running:
  assumes "running s" "True \<notin> set sched"
    and "\<forall>i. \<not> isl (fst (op_update ops i))" "\<forall>i. \<not> isl (fst (op_has_event ops i))"
  shows "fst (ev_runner ops sched s) = Pending
         \<and> count_list (new_actions s (snd (ev_runner ops sched s))) AIdle = length sched"
proof -
  have "\<not> isl (fst (op_update ops (m_impl s)))" using assms(3) by blast
  then obtain b where b: "fst (op_update ops (m_impl s)) = Inr b"
    by (cases "fst (op_update ops (m_impl s))") auto
  obtain s1 st s2 where l: "ev_loop ops sched s1 = (st, s2)"
    and t1: "m_trace s1 = m_trace s @ [ALock, AUpdate (Inr b), ABroadcast, AUnlock]"
    and e1: "m_enabled s1 = m_enabled s"
    and run: "ev_runner ops sched s = (case st of Raised e \<Rightarrow> (Raised e, halt e s2) | _ \<Rightarrow> (st, s2))"
    using ev_runner_warm_ok [OF b] by blast
  have loop: "st = Pending \<and> count_list (new_actions s1 s2) AIdle = length sched"
    using ev_loop_no_stop [of s1 sched ops] assms e1 l by (simp add: running_def)
  obtain d where "m_trace s2 = m_trace s1 @ d" using ev_loop_step [OF l] by blast
  with loop t1 show ?thesis by (simp add: run new_actions_def)
qed

text \<open>C9. After a stop takes effect nothing more happens in the worker: the only action
  after the stop is the wake-up \<open>stop()\<close> itself issues; no update, no broadcast.\<close>

theorem ev_runner_quiet_after_stop:
  assumes "new_actions s (snd (ev_runner ops sched s)) = a @ AStop # b"
  shows "b = [AWakeup]"
proof (cases "fst (op_update ops (m_impl s))")
  case (Inl e)
  note r = ev_runner_warm_raise [OF Inl]
  have "new_actions s (snd (ev_runner ops sched s)) =
          [ALock, AUpdate (Inl e), AUnlock, AHalt e] @ (if m_enabled s then [AStop, AWakeup] else [])"
    by (simp add: r(2) new_actions_def)
  with assms show ?thesis
    by (cases "m_enabled s")
       (auto intro: stop_then_wakeup [of AStop "[ALock, AUpdate (Inl e), AUnlock, AHalt e]"]
             simp: append_eq_append_conv2 Cons_eq_append_conv)
next
  case (Inr c)
  from ev_runner_ok_shape [OF Inr] obtain d2 where
    tr: "m_trace (snd (ev_runner ops sched s)) = m_trace s @
           [ALock, AUpdate (Inr c), ABroadcast, AUnlock] @ d2 @
           (case fst (ev_runner ops sched s) of Raised e \<Rightarrow> [AHalt e, AStop, AWakeup] | _ \<Rightarrow> [])"
    and sl: "stop_last d2 (fst (ev_runner ops sched s))"
    by blast
  let ?p = "[ALock, AUpdate (Inr c), ABroadcast, AUnlock]"
  have na: "new_actions s (snd (ev_runner ops sched s)) = ?p @ d2 @
           (case fst (ev_runner ops sched s) of Raised e \<Rightarrow> [AHalt e, AStop, AWakeup] | _ \<Rightarrow> [])"
    by (simp add: tr new_actions_def)
  show ?thesis
  proof (cases "fst (ev_runner ops sched s)")
    case (Raised e)
    with sl have "AStop \<notin> set d2" by (auto simp: stop_last_def)
    then have ns: "AStop \<notin> set (?p @ d2 @ [AHalt e])" by simp
    have eq: "(?p @ d2 @ [AHalt e]) @ [AStop, AWakeup] = a @ AStop # b"
      using assms na Raised by simp
    show ?thesis by (rule stop_then_wakeup [OF ns _ eq]) simp
  next
    case Exited
    show ?thesis
    proof (cases "AStop \<in> set d2")
      case True
      with sl obtain a' where a': "d2 = a' @ [AStop, AWakeup]" "AStop \<notin> set a'"
        by (auto simp: stop_last_def)
      have ns: "AStop \<notin> set (?p @ a')" using a'(2) by simp
      have eq: "(?p @ a') @ [AStop, AWakeup] = a @ AStop # b"
        using assms na Exited a'(1) by simp
      show ?thesis by (rule stop_then_wakeup [OF ns _ eq]) simp
    next
      case False
      then show ?thesis using assms na Exited by (auto simp: append_eq_append_conv2 Cons_eq_append_conv)
    qed
  next
    case Pending
    have "AStop \<notin> set d2" using sl Pending by (auto simp: stop_last_def)
    then show ?thesis using assms na Pending by (auto simp: append_eq_append_conv2 Cons_eq_append_conv)
  qed
qed

text \<open>C10. The worker thread returns only once the module is halted: whenever the runner
  is not still looping, the module's lifecycle state is Halted.\<close>

theorem ev_runner_returns_halted:
  assumes "fst (ev_runner ops sched s) \<noteq> Pending"
  shows "lifecycle_of (snd (ev_runner ops sched s)) = Halted"
proof (cases "fst (op_update ops (m_impl s))")
  case (Inl e)
  then show ?thesis using ev_runner_warm_raise(3) [OF Inl] by (simp add: lifecycle_of_def)
next
  case (Inr b)
  from ev_runner_ok_shape [OF Inr] have
    "fst (ev_runner ops sched s) = Pending \<longleftrightarrow> m_enabled (snd (ev_runner ops sched s))"
    by blast
  with assms show ?thesis by (simp add: lifecycle_of_def)
qed

text \<open>C11. Starting an event module twice is fatal: the second \<open>start()\<close> move-assigns a
  thread onto the joinable \<open>m_mainthread\<close>, which calls \<open>std::terminate\<close>.\<close>

theorem ev_start_twice_terminates:
  assumes "ev_start s = Inr s'"
  shows "ev_start s' = Inl Terminate"
  using assms by (auto simp: ev_start_def split: if_splits)

text \<open>C12. A module that was stopped before its thread started still performs the
  warm-up when started: it locks, updates and broadcasts once, then leaves the loop at
  the first test of \<open>running()\<close>.\<close>

theorem ev_runner_stopped_module_broadcasts:
  assumes "\<not> running s" and "fst (op_update ops (m_impl s)) = Inr b"
  shows "new_actions s (snd (ev_runner ops sched s)) = [ALock, AUpdate (Inr b), ABroadcast, AUnlock]
         \<and> fst (ev_runner ops sched s) = Exited"
proof -
  obtain s1 st s2 where l: "ev_loop ops sched s1 = (st, s2)"
    and t1: "m_trace s1 = m_trace s @ [ALock, AUpdate (Inr b), ABroadcast, AUnlock]"
    and e1: "m_enabled s1 = m_enabled s"
    and run: "ev_runner ops sched s = (case st of Raised e \<Rightarrow> (Raised e, halt e s2) | _ \<Rightarrow> (st, s2))"
    using ev_runner_warm_ok [OF assms(2)] by blast
  have "st = Exited \<and> s2 = s1"
    using ev_loop_not_running [of s1 ops sched] assms(1) e1 l by (simp add: running_def)
  with t1 show ?thesis by (simp add: run new_actions_def)
qed

subsection \<open>Witnesses\<close>

lemmas ev_run_defs = ev_runner_def ev_warmup_def ev_check_def ev_iteration_def
  demo_ops_def fail_ops_def demo_module_def new_actions_def


theorem mod_run_no_resurrection_witness:
  "mod_run demo_ops [Start [False]] (halt ''stopped'' (demo_module\<lparr>m_thread := False\<rparr>)) =
     Some (the (mod_run demo_ops [Start [False]] (halt ''stopped'' (demo_module\<lparr>m_thread := False\<rparr>))))
   \<and> \<not> running (the (mod_run demo_ops [Start [False]] (halt ''stopped'' (demo_module\<lparr>m_thread := False\<rparr>))))"
proof -
  have h: "mod_run demo_ops [Start [False]] (halt ''stopped'' (demo_module\<lparr>m_thread := False\<rparr>)) =
     Some (the (mod_run demo_ops [Start [False]] (halt ''stopped'' (demo_module\<lparr>m_thread := False\<rparr>))))"
    by (simp add: ev_run_defs module_defs ev_start_def)
  show ?thesis by (rule conjI [OF h mod_run_no_resurrection [OF h]])
qed

theorem ev_runner_failing_update_witness:
  "(\<forall>i. isl (fst (op_update fail_ops i)))
   \<and> ((\<exists>e. fst (ev_runner fail_ops [False] demo_module) = Raised e)
   \<and> length (filter is_update (new_actions demo_module (snd (ev_runner fail_ops [False] demo_module)))) = 1
   \<and> ABroadcast \<notin> set (new_actions demo_module (snd (ev_runner fail_ops [False] demo_module)))
   \<and> \<not> running (snd (ev_runner fail_ops [False] demo_module)))"
proof -
  have h: "\<forall>i. isl (fst (op_update fail_ops i))" by (simp add: fail_ops_def)
  show ?thesis by (rule conjI [OF h ev_runner_failing_update [OF h]])
qed

theorem ev_runner_stop_returns_witness:
  "True \<in> set [False, True] \<and> fst (ev_runner demo_ops [False, True] demo_module) \<noteq> Pending"
proof -
  have h: "True \<in> set [False, True]" by simp
  show ?thesis by (rule conjI [OF h ev_runner_stop_returns [OF h]])
qed

theorem ev_runner_loops_while_running_witness:
  "(running demo_module \<and> True \<notin> set [False, False]
    \<and> (\<forall>i. \<not> isl (fst (op_update demo_ops i))) \<and> (\<forall>i. \<not> isl (fst (op_has_event demo_ops i))))
   \<and> fst (ev_runner demo_ops [False, False] demo_module) = Pending
   \<and> count_list (new_actions demo_module (snd (ev_runner demo_ops [False, False] demo_module))) AIdle = 2"
proof -
  have h1: "running demo_module" by (simp add: demo_module_def running_def)
  have h2: "True \<notin> set [False, False]" by simp
  have h3: "\<forall>i. \<not> isl (fst (op_update demo_ops i))" by (simp add: demo_ops_def)
  have h4: "\<forall>i. \<not> isl (fst (op_has_event demo_ops i))" by (simp add: demo_ops_def)
  have "fst (ev_runner demo_ops [False, False] demo_module) = Pending
   \<and> count_list (new_actions demo_module (snd (ev_runner demo_ops [False, False] demo_module))) AIdle
     = length [False, False]"
    by (rule ev_runner_loops_while_running [OF h1 h2 h3 h4])
  with h1 h2 h3 h4 show ?thesis by simp
qed

theorem ev_runner_quiet_after_stop_witness:
  "new_actions demo_module (snd (ev_runner demo_ops [False, True] demo_module)) =
     [ALock, AUpdate (Inr True), ABroadcast, AUnlock,
      ALock, AHasEvent (Inr True), AUpdate (Inr True), AUnlock, ABroadcast, AIdle] @ AStop # [AWakeup]
   \<and> [AWakeup] = [AWakeup]"
proof -
  have h: "new_actions demo_module (snd (ev_runner demo_ops [False, True] demo_module)) =
     [ALock, AUpdate (Inr True), ABroadcast, AUnlock,
      ALock, AHasEvent (Inr True), AUpdate (Inr True), AUnlock, ABroadcast, AIdle] @ AStop # [AWakeup]"
    by (simp add: ev_run_defs module_defs)
  show ?thesis by (rule conjI [OF h ev_runner_quiet_after_stop [OF h]])
qed

theorem ev_runner_returns_halted_witness:
  "fst (ev_runner demo_ops [True] demo_module) \<noteq> Pending
   \<and> lifecycle_of (snd (ev_runner demo_ops [True] demo_module)) = Halted"
proof -
  have h: "fst (ev_runner demo_ops [True] demo_module) \<noteq> Pending"
    by (simp add: ev_run_defs module_defs)
  show ?thesis by (rule conjI [OF h ev_runner_returns_halted [OF h]])
qed

theorem ev_start_twice_terminates_witness:
  "ev_start (demo_module\<lparr>m_thread := False\<rparr>) = Inr demo_module
   \<and> ev_start demo_module = Inl Terminate"
proof -
  have h: "ev_start (demo_module\<lparr>m_thread := False\<rparr>) = Inr demo_module"
    by (simp add: ev_start_def demo_module_def)
  show ?thesis by (rule conjI [OF h ev_start_twice_terminates [OF h]])
qed

theorem ev_runner_stopped_module_broadcasts_witness:
  "(\<not> running (demo_module\<lparr>m_enabled := False\<rparr>)
    \<and> fst (op_update demo_ops (m_impl (demo_module\<lparr>m_enabled := False\<rparr>))) = Inr True)
   \<and> new_actions (demo_module\<lparr>m_enabled := False\<rparr>)
       (snd (ev_runner demo_ops [False] (demo_module\<lparr>m_enabled := False\<rparr>)))
       = [ALock, AUpdate (Inr True), ABroadcast, AUnlock]
   \<and> fst (ev_runner demo_ops [False] (demo_module\<lparr>m_enabled := False\<rparr>)) = Exited"
proof -
  have h1: "\<not> running (demo_module\<lparr>m_enabled := False\<rparr>)" by (simp add: running_def)
  have h2: "fst (op_update demo_ops (m_impl (demo_module\<lparr>m_enabled := False\<rparr>))) = Inr True"
    by (simp add: demo_ops_def)
  show ?thesis using h1 h2 ev_runner_stopped_module_broadcasts [OF h1 h2] by blast
qed

end
