(* ===== verification/Timer_Module.thy ===== *)
theory Timer_Module
  imports Module_Base
begin

text \<open>
  The timer-driven strategy, \<open>timer_module<Impl>\<close> (\<open>modules/meta/timer_module.hpp\<close>
  in polybar; not among the sources of this repository, so modelled from spec
  section 4.3). While the module runs, the worker evaluates the module under the
  content lock, releases the lock, broadcasts when \<open>update()\<close> reported a change,
  and then sleeps for the configured interval. A \<open>wakeup()\<close> from another thread
  ends the sleep early, and so does \<open>stop()\<close>. An exception from \<open>update()\<close> is
  caught and becomes \<open>halt(err.what())\<close>. The first evaluation happens at
  start-up, before any sleep: it is the warm-up that spec section 8 counts.

  \<open>update()\<close> reads the wall clock and process-wide state such as the
  environment, so the hook takes the clock (ms) and an environment \<open>'env\<close>
  and returns the environment it leaves. The worker's clock advances only by
  sleeping. How each sleep ends is given by the schedule \<open>'impl sleep_end list\<close>,
  which is also the fuel of the loop.
\<close>

type_synonym ('env, 'impl) timed_update = "nat \<Rightarrow> 'env \<Rightarrow> 'impl \<Rightarrow> (string + bool) \<times> 'impl \<times> 'env"

text \<open>
  How a sleep of the worker ends: after the full interval; after \<open>k\<close> ms, woken by
  another thread that first changed the module's state with \<open>f\<close> (a toggle from
  \<open>input()\<close>, say); or after \<open>k\<close> ms by \<open>stop()\<close>.
\<close>

datatype 'impl sleep_end = Tick | Woken nat "'impl \<Rightarrow> 'impl" | Stopped nat

text \<open>One evaluation (spec 4.3 steps 2--4): lock, \<open>update()\<close>, unlock, broadcast if changed.\<close>

definition tm_eval ::
  "('env, 'impl) timed_update \<Rightarrow> nat \<Rightarrow> 'env \<Rightarrow> 'impl module \<Rightarrow> (string + unit) \<times> 'env \<times> 'impl module" where
  "tm_eval upd t e s =
     (case upd t e (m_impl s) of (r, i, e') \<Rightarrow>
        (let s1 = content_unlock (emit (AUpdate r) ((content_lock s)\<lparr>m_impl := i\<rparr>)) in
         case r of
           Inl err \<Rightarrow> (Inl err, e', s1)
         | Inr c \<Rightarrow> (Inr (), e', if c then broadcast s1 else s1)))"

text \<open>\<open>sleep(interval)\<close>: the clock advances by the time slept.\<close>

fun tm_sleep :: "nat \<Rightarrow> 'impl sleep_end \<Rightarrow> nat \<Rightarrow> 'impl module \<Rightarrow> nat \<times> 'impl module" where
  "tm_sleep T Tick t s = (t + T, emit (ASleep T) s)"
| "tm_sleep T (Woken k f) t s = (t + min k T, emit (ASleep (min k T)) (wakeup (s\<lparr>m_impl := f (m_impl s)\<rparr>)))"
| "tm_sleep T (Stopped k) t s = (t + min k T, emit (ASleep (min k T)) (mod_stop s))"

text \<open>The loop \<open>while (running())\<close>: evaluate, then sleep if still running.\<close>

fun tm_loop ::
  "('env, 'impl) timed_update \<Rightarrow> nat \<Rightarrow> 'impl sleep_end list \<Rightarrow> nat \<Rightarrow> 'env \<Rightarrow> 'impl module
   \<Rightarrow> loop_status \<times> nat \<times> 'env \<times> 'impl module" where
  "tm_loop upd T sched t e s =
     (if \<not> running s then (Exited, t, e, s)
      else (case tm_eval upd t e s of
              (Inl err, e1, s1) \<Rightarrow> (Raised err, t, e1, s1)
            | (Inr _, e1, s1) \<Rightarrow>
                if \<not> running s1 then (Exited, t, e1, s1)
                else (case sched of
                        [] \<Rightarrow> (Pending, t, e1, s1)
                      | w # ws \<Rightarrow> (case tm_sleep T w t s1 of (t', s2) \<Rightarrow> tm_loop upd T ws t' e1 s2))))"

text \<open>\<open>runner()\<close>: the loop inside a \<open>try\<close> whose \<open>catch\<close> halts the module.\<close>

definition tm_runner ::
  "('env, 'impl) timed_update \<Rightarrow> nat \<Rightarrow> 'impl sleep_end list \<Rightarrow> nat \<Rightarrow> 'env \<Rightarrow> 'impl module
   \<Rightarrow> loop_status \<times> nat \<times> 'env \<times> 'impl module" where
  "tm_runner upd T sched t e s =
     (case tm_loop upd T sched t e s of
        (Raised err, t', e', s') \<Rightarrow> (Raised err, t', e', halt err s')
      | r \<Rightarrow> r)"

text \<open>
  The environment of spec section 8: no early wake-up, and a stop that arrives
  \<open>D\<close> ms after start-up, during the sleep that began last before it.
\<close>

definition stop_at :: "nat \<Rightarrow> nat \<Rightarrow> 'impl sleep_end list" where
  "stop_at T D = replicate (D div T) Tick @ [Stopped (D mod T)]"

text \<open>The instants of the evaluations when every sleep runs the full interval.\<close>

fun tick_times :: "nat \<Rightarrow> nat \<Rightarrow> nat \<Rightarrow> nat list" where
  "tick_times t T 0 = [t]"
| "tick_times t T (Suc n) = t # tick_times (t + T) T n"

text \<open>The results of \<open>update()\<close> called at the given instants, in order.\<close>

fun upd_seq :: "('env, 'impl) timed_update \<Rightarrow> nat list \<Rightarrow> 'env \<Rightarrow> 'impl \<Rightarrow> (string + bool) list \<times> 'env \<times> 'impl" where
  "upd_seq upd [] e i = ([], e, i)"
| "upd_seq upd (t # ts) e i =
     (case upd t e i of (r, i', e') \<Rightarrow> (case upd_seq upd ts e' i' of (rs, e'', i'') \<Rightarrow> (r # rs, e'', i'')))"

text \<open>\<open>lock_ext s s'\<close>: \<open>s'\<close> extends the trace of \<open>s\<close> by a lock-disciplined
  segment and leaves the lock free.\<close>

definition lock_ext :: "'impl module \<Rightarrow> 'impl module \<Rightarrow> bool" where
  "lock_ext s s' \<longleftrightarrow> (\<exists>d. m_trace s' = m_trace s @ d \<and> lock_walk False d = Some False) \<and> \<not> m_locked s'"

declare tm_loop.simps [simp del]

subsection \<open>Lemmas: one evaluation, one sleep, and the loop\<close>

lemma tm_eval_step:
  assumes "upd t e (m_impl s) = (r, i, e')"
  shows "fst (tm_eval upd t e s) = (case r of Inl err \<Rightarrow> Inl err | Inr _ \<Rightarrow> Inr ())"
    and "fst (snd (tm_eval upd t e s)) = e'"
    and "m_impl (snd (snd (tm_eval upd t e s))) = i"
    and "m_enabled (snd (snd (tm_eval upd t e s))) = m_enabled s"
    and "m_thread (snd (snd (tm_eval upd t e s))) = m_thread s"
    and "\<not> m_locked (snd (snd (tm_eval upd t e s)))"
    and "m_trace (snd (snd (tm_eval upd t e s))) =
           m_trace s @ [ALock, AUpdate r, AUnlock] @ (if r = Inr True then [ABroadcast] else [])"
  using assms by (cases r; simp add: tm_eval_def Let_def trace_simps)+

lemma tm_sleep_fields [simp]:
  "m_thread (snd (tm_sleep T w t s)) = m_thread s"
  "m_locked (snd (tm_sleep T w t s)) = m_locked s"
  by (cases w; simp)+

lemma tm_sleep_Tick [simp]:
  "tm_sleep T Tick t s = (t + T, emit (ASleep T) s)"
  by simp

lemma no_raise_upd:
  assumes "\<forall>t e i. \<not> isl (fst (upd t e i))"
  obtains b i' e' where "upd t e i = (Inr b, i', e')"
proof -
  obtain r i' e' where u: "upd t e i = (r, i', e')" by (metis prod_cases3)
  have "\<not> isl r" using assms u by (metis fst_conv)
  then show ?thesis using u that by (cases r) auto
qed

lemma tm_loop_not_running: "\<not> running s \<Longrightarrow> tm_loop upd T sched t e s = (Exited, t, e, s)"
  by (simp add: tm_loop.simps)

lemma tm_loop_raise:
  "running s \<Longrightarrow> tm_eval upd t e s = (Inl err, e1, s1) \<Longrightarrow>
   tm_loop upd T sched t e s = (Raised err, t, e1, s1)"
  by (simp add: tm_loop.simps)

lemma tm_loop_ok:
  "running s \<Longrightarrow> tm_eval upd t e s = (Inr u, e1, s1) \<Longrightarrow> running s1 \<Longrightarrow>
   tm_loop upd T sched t e s =
     (case sched of [] \<Rightarrow> (Pending, t, e1, s1)
      | w # ws \<Rightarrow> (case tm_sleep T w t s1 of (t', s2) \<Rightarrow> tm_loop upd T ws t' e1 s2))"
  by (simp add: tm_loop.simps)

lemma tm_eval_ok:
  assumes "upd t e (m_impl s) = (Inr b, i, e')" "running s"
  obtains s1 where "tm_eval upd t e s = (Inr (), e', s1)" "running s1" "m_impl s1 = i"
    "m_thread s1 = m_thread s" "\<not> m_locked s1"
    "m_trace s1 = m_trace s @ [ALock, AUpdate (Inr b), AUnlock] @ (if b then [ABroadcast] else [])"
proof -
  note ev = tm_eval_step [of upd t e s, OF assms(1)]
  obtain s1 where s1: "tm_eval upd t e s = (Inr (), e', s1)"
    using ev(1,2) by (cases "tm_eval upd t e s") auto
  show ?thesis by (rule that [OF s1]) (use ev assms(2) s1 in \<open>simp_all add: running_def\<close>)
qed

lemma tm_loop_ticks:
  assumes nr: "\<forall>t e i. \<not> isl (fst (upd t e i))"
    and "running s" and "\<not> m_locked s"
  shows "\<exists>s' d. tm_loop upd T (replicate n Tick @ [Stopped k]) t e s =
               (Exited, t + n * T + min k T, fst (snd (upd_seq upd (tick_times t T n) e (m_impl s))), s')
           \<and> m_impl s' = snd (snd (upd_seq upd (tick_times t T n) e (m_impl s)))
           \<and> \<not> running s' \<and> \<not> m_locked s' \<and> m_thread s' = m_thread s
           \<and> m_trace s' = m_trace s @ d
           \<and> length (filter is_update d) = Suc n
           \<and> count_list d ABroadcast = count_list (fst (upd_seq upd (tick_times t T n) e (m_impl s))) (Inr True)
           \<and> lock_walk False d = Some False"
  using assms(2,3)
proof (induction n arbitrary: t e s)
  case 0
  obtain b i e' where u: "upd t e (m_impl s) = (Inr b, i, e')" using nr by (rule no_raise_upd)
  obtain s1 where s1: "tm_eval upd t e s = (Inr (), e', s1)" "running s1" "m_impl s1 = i"
    "m_thread s1 = m_thread s" "\<not> m_locked s1"
    "m_trace s1 = m_trace s @ [ALock, AUpdate (Inr b), AUnlock] @ (if b then [ABroadcast] else [])"
    using u "0.prems"(1) by (rule tm_eval_ok)
  let ?s2 = "emit (ASleep (min k T)) (mod_stop s1)"
  have loop: "tm_loop upd T [Stopped k] t e s = (Exited, t + min k T, e', ?s2)"
    using s1(1,2) "0.prems"(1) by (simp add: tm_loop_ok tm_loop_not_running running_def)
  show ?case
    by (rule exI [of _ ?s2], rule exI [of _ "drop (length (m_trace s)) (m_trace ?s2)"])
       (use s1 u in \<open>simp add: loop running_def trace_simps\<close>)
next
  case (Suc n)
  obtain b i e' where u: "upd t e (m_impl s) = (Inr b, i, e')" using nr by (rule no_raise_upd)
  obtain s1 where s1: "tm_eval upd t e s = (Inr (), e', s1)" "running s1" "m_impl s1 = i"
    "m_thread s1 = m_thread s" "\<not> m_locked s1"
    "m_trace s1 = m_trace s @ [ALock, AUpdate (Inr b), AUnlock] @ (if b then [ABroadcast] else [])"
    using u Suc.prems(1) by (rule tm_eval_ok)
  let ?s2 = "emit (ASleep T) s1"
  have r2: "running ?s2" "\<not> m_locked ?s2" using s1(2,5) by (simp_all add: running_def)
  obtain s' d where ih: "tm_loop upd T (replicate n Tick @ [Stopped k]) (t + T) e' ?s2 =
               (Exited, t + T + n * T + min k T, fst (snd (upd_seq upd (tick_times (t + T) T n) e' i)), s')"
    "m_impl s' = snd (snd (upd_seq upd (tick_times (t + T) T n) e' i))"
    "\<not> running s'" "\<not> m_locked s'" "m_thread s' = m_thread s1" "m_trace s' = (m_trace s1 @ [ASleep T]) @ d"
    "length (filter is_update d) = Suc n"
    "count_list d ABroadcast = count_list (fst (upd_seq upd (tick_times (t + T) T n) e' i)) (Inr True)"
    "lock_walk False d = Some False"
    using Suc.IH [OF r2, of "t + T" e'] unfolding emit_fields s1(3) by blast
  have loop: "tm_loop upd T (Tick # replicate n Tick @ [Stopped k]) t e s =
              tm_loop upd T (replicate n Tick @ [Stopped k]) (t + T) e' ?s2"
    using s1(1,2) Suc.prems(1) by (simp add: tm_loop_ok)
  obtain rs e'' i'' where us: "upd_seq upd (tick_times (t + T) T n) e' i = (rs, e'', i'')"
    by (metis prod_cases3)
  show ?case
    by (rule exI [of _ s'], rule exI [of _ "[ALock, AUpdate (Inr b), AUnlock] @
                                          (if b then [ABroadcast] else []) @ [ASleep T] @ d"])
       (use ih s1 u us in \<open>simp add: loop lock_walk_append algebra_simps\<close>)
qed

lemma lock_ext_refl: "\<not> m_locked s \<Longrightarrow> lock_ext s s"
  by (auto simp: lock_ext_def intro: exI [of _ "[]"])

lemma lock_ext_trans: "lock_ext s s1 \<Longrightarrow> lock_ext s1 s2 \<Longrightarrow> lock_ext s s2"
  by (fastforce simp: lock_ext_def lock_walk_append)

lemma lock_ext_eval: "lock_ext s (snd (snd (tm_eval upd t e s)))"
proof -
  obtain r i e' where u: "upd t e (m_impl s) = (r, i, e')" by (metis prod_cases3)
  show ?thesis using tm_eval_step(6,7) [of upd t e s, OF u]
    by (auto simp: lock_ext_def)
qed

lemma lock_ext_sleep: "\<not> m_locked s \<Longrightarrow> lock_ext s (snd (tm_sleep T w t s))"
  by (cases w) (auto simp: lock_ext_def trace_simps)

lemma lock_ext_halt: "lock_ext s s' \<Longrightarrow> lock_ext s (halt err s')"
  by (auto simp: lock_ext_def trace_simps lock_walk_append)

lemma tm_loop_lock: "\<not> m_locked s \<Longrightarrow> lock_ext s (snd (snd (snd (tm_loop upd T sched t e s))))"
proof (induction sched arbitrary: t e s)
  case Nil
  then show ?case
    using lock_ext_eval [of s upd t e]
    by (auto simp: tm_loop.simps lock_ext_refl split: prod.splits sum.splits)
next
  case (Cons w ws)
  obtain r e1 s1 where ev: "tm_eval upd t e s = (r, e1, s1)" by (metis prod_cases3)
  have l1: "lock_ext s s1" using lock_ext_eval [of s upd t e] ev by simp
  then have nl1: "\<not> m_locked s1" by (simp add: lock_ext_def)
  obtain t2 s2 where sl: "tm_sleep T w t s1 = (t2, s2)" by fastforce
  have l2: "lock_ext s s2" using lock_ext_trans [OF l1 lock_ext_sleep [OF nl1, of T w t]] sl by simp
  have "\<not> m_locked s2" using l2 by (simp add: lock_ext_def)
  then have "lock_ext s (snd (snd (snd (tm_loop upd T ws t2 e1 s2))))"
    using lock_ext_trans [OF l2 Cons.IH] by blast
  then show ?case
    using Cons.prems l1 ev sl by (auto simp: tm_loop.simps lock_ext_refl split: sum.splits)
qed

lemma tm_runner_lock: "\<not> m_locked s \<Longrightarrow> lock_ext s (snd (snd (snd (tm_runner upd T sched t e s))))"
  using tm_loop_lock [of s upd T sched t e]
  by (auto simp: tm_runner_def lock_ext_halt split: prod.splits loop_status.splits)

lemma stop_at_clock: "0 < (T::nat) \<Longrightarrow> D div T * T + min (D mod T) T = D"
  using mod_less_divisor [of T D] by (simp add: min_absorb1 less_imp_le)


text \<open>A property of the concrete module's state that \<open>update()\<close> and the changes
  other threads make before a wake-up preserve holds after every run.\<close>

lemma tm_sleep_impl:
  "m_impl (snd (tm_sleep T w t s)) = (case w of Woken k f \<Rightarrow> f (m_impl s) | _ \<Rightarrow> m_impl s)"
  by (cases w) (simp_all add: wakeup_def mod_stop_def)

lemma tm_loop_impl_inv:
  assumes upd: "\<And>t e i r i' e'. P i \<Longrightarrow> upd t e i = (r, i', e') \<Longrightarrow> P i'"
    and wk: "\<And>k f i. Woken k f \<in> set sched \<Longrightarrow> P i \<Longrightarrow> P (f i)"
    and "P (m_impl s)"
  shows "P (m_impl (snd (snd (snd (tm_loop upd T sched t e s)))))"
  using wk assms(3)
proof (induction sched arbitrary: t e s)
  case Nil
  obtain r i e' where u: "upd t e (m_impl s) = (r, i, e')" by (metis prod_cases3)
  have "P (m_impl (snd (snd (tm_eval upd t e s))))"
    using tm_eval_step(3) [of upd t e s, OF u] upd [OF Nil.prems(2) u] by simp
  then show ?case using Nil.prems(2)
    by (auto simp: tm_loop.simps split: prod.splits sum.splits)
next
  case (Cons w ws)
  obtain r e1 s1 where ev: "tm_eval upd t e s = (r, e1, s1)" by (metis prod_cases3)
  obtain r0 i e' where u: "upd t e (m_impl s) = (r0, i, e')" by (metis prod_cases3)
  have p1: "P (m_impl s1)"
    using tm_eval_step(3) [of upd t e s, OF u] upd [OF Cons.prems(2) u] ev by simp
  obtain t2 s2 where sl: "tm_sleep T w t s1 = (t2, s2)" by fastforce
  have p2: "P (m_impl s2)"
  proof (cases w)
    case (Woken k f)
    then have "P (f (m_impl s1))" using Cons.prems(1) [of k f "m_impl s1"] p1 by simp
    then show ?thesis using sl Woken by (auto simp: wakeup_def)
  qed (use sl p1 in \<open>auto simp: mod_stop_def wakeup_def\<close>)
  have wk: "\<And>k f i. Woken k f \<in> set ws \<Longrightarrow> P i \<Longrightarrow> P (f i)"
    using Cons.prems(1) by (meson list.set_intros(2))
  have "P (m_impl (snd (snd (snd (tm_loop upd T ws t2 e1 s2)))))"
    using wk p2 by (rule Cons.IH)
  then show ?case
    using Cons.prems(2) p1 ev sl by (auto simp: tm_loop.simps split: sum.splits)
qed

lemma tm_runner_impl_inv:
  assumes "\<And>t e i r i' e'. P i \<Longrightarrow> upd t e i = (r, i', e') \<Longrightarrow> P i'"
    and "\<And>k f i. Woken k f \<in> set sched \<Longrightarrow> P i \<Longrightarrow> P (f i)"
    and "P (m_impl s)"
  shows "P (m_impl (snd (snd (snd (tm_runner upd T sched t e s)))))"
proof -
  have "P (m_impl (snd (snd (snd (tm_loop upd T sched t e s)))))"
    using assms by (rule tm_loop_impl_inv)
  then show ?thesis by (auto simp: tm_runner_def split: prod.splits loop_status.splits)
qed

end
