(* ===== verification/Date_Module.thy ===== *)
theory Date_Module
  imports Module_Base
begin

text \<open>
  The date module, \<open>date_module\<close> of \<open>src/src/modules/date.cpp\<close>, a timer-driven
  module. Its constructor reads the formats from the configuration; \<open>update()\<close>
  formats the current time with \<open>std::put_time(localtime(..))\<close> in up to two time
  zones, which it selects by overwriting the process-wide environment variable
  \<open>TZ\<close>; \<open>build()\<close> emits the label, clickable when an alternative format exists;
  \<open>input()\<close> toggles between the two formats and wakes the worker.

  The environment variable is shared by every module of the process, so it is
  explicit state here: \<open>update()\<close> takes the value of \<open>TZ\<close> (\<open>None\<close>: unset) and
  returns the value it leaves behind. The C library's formatting of a time stamp
  under a \<open>TZ\<close> value is the parameter \<open>put\<close> (type \<open>strftime_fn\<close>): the model
  assumes nothing about it but that it is a function of \<open>TZ\<close>, the time and the
  format. The label (\<open>drawtypes/label\<close>), the formatter and the configuration are
  collaborators outside this repository and are modelled from their use here.
\<close>

type_synonym strftime_fn = "string option \<Rightarrow> int \<Rightarrow> string \<Rightarrow> string"

text \<open>Configuration of the module's section: string settings and durations (ms).\<close>

record config =
  cf_str :: "string \<Rightarrow> string option"
  cf_dur :: "string \<Rightarrow> nat option"

definition conf_get :: "config \<Rightarrow> string \<Rightarrow> string \<Rightarrow> string" where
  "conf_get c k dflt = (case cf_str c k of None \<Rightarrow> dflt | Some v \<Rightarrow> v)"

definition TAG_LABEL :: string where "TAG_LABEL = ''<label>''"
definition TAG_DATE :: string where "TAG_DATE = ''<date>''"
definition EVENT_TOGGLE :: string where "EVENT_TOGGLE = ''datetoggle''"

text \<open>
  A label keeps its template (\<open>m_text\<close>) and the text with the tokens replaced
  (\<open>m_tokenized\<close>); \<open>reset_tokens()\<close> restores the template, \<open>replace_token\<close>
  replaces every occurrence of a token in the current text.
\<close>

record label =
  l_text :: string
  l_tokenized :: string

definition reset_tokens :: "label \<Rightarrow> label" where
  "reset_tokens l = l\<lparr>l_tokenized := l_text l\<rparr>"

definition replace_token :: "string \<Rightarrow> string \<Rightarrow> label \<Rightarrow> label" where
  "replace_token tok v l = l\<lparr>l_tokenized := replace_all (l_tokenized l) tok v\<rparr>"

definition load_optional_label :: "config \<Rightarrow> string \<Rightarrow> string \<Rightarrow> label" where
  "load_optional_label c key dflt = (let t = conf_get c key dflt in \<lparr>l_text = t, l_tokenized = t\<rparr>)"

record date_module =
  m_dateformat :: string
  m_dateformat_alt :: string
  m_timeformat :: string
  m_time_timezone :: string
  m_time_timezone_2 :: string
  m_timeformat_alt :: string
  m_interval :: nat
  m_format :: string            \<comment> \<open>value of the formatter's \<open>DEFAULT_FORMAT\<close>\<close>
  m_label :: "label option"     \<comment> \<open>the \<open>shared_ptr\<close>, null when not loaded\<close>
  m_toggled :: bool
  m_date :: string
  m_date_2 :: string
  m_time :: string
  m_time_2 :: string

datatype date_error = Module_error string

subsection \<open>Constructor (lines 11--41)\<close>

definition conf_format :: "config \<Rightarrow> string \<Rightarrow> string" where
  "conf_format c k = trim (conf_get c k '''') (CHR 0x22)"

definition date_ctor :: "config \<Rightarrow> date_error + date_module" where
  "date_ctor c =
     (let df = conf_format c ''date''; dfa = conf_format c ''date-alt'';
          tf = conf_format c ''time''; tz = conf_format c ''time-TZ'';
          tz2 = conf_format c ''time-2-TZ''; tfa = conf_format c ''time-alt''
      in if df = [] \<and> tf = [] then Inl (Module_error ''No date or time format specified'')
         else
           (let fmt0 = conf_get c ''format'' TAG_LABEL;
                fmt = (if occurs TAG_DATE fmt0 then replace_all fmt0 TAG_DATE TAG_LABEL else fmt0);
                lbl = (if occurs TAG_LABEL fmt then Some (load_optional_label c ''label'' ''%date%'')
                       else None)
            in Inr \<lparr>m_dateformat = df, m_dateformat_alt = dfa, m_timeformat = tf,
                    m_time_timezone = tz, m_time_timezone_2 = tz2, m_timeformat_alt = tfa,
                    m_interval = (case cf_dur c ''interval'' of None \<Rightarrow> 1000 | Some d \<Rightarrow> d),
                    m_format = fmt, m_label = lbl, m_toggled = False,
                    m_date = [], m_date_2 = [], m_time = [], m_time_2 = []\<rparr>))"

subsection \<open>update() (lines 43--108)\<close>

text \<open>The label refresh of lines 93--99.\<close>

definition fill_label :: "string \<Rightarrow> string \<Rightarrow> string \<Rightarrow> string \<Rightarrow> label \<Rightarrow> label" where
  "fill_label d d2 t t2 l =
     replace_token ''%time-2%'' t2 (replace_token ''%time%'' t
       (replace_token ''%date-2%'' d2 (replace_token ''%date%'' d (reset_tokens l))))"

text \<open>\<open>if (zone != "") setenv("TZ", zone, 1)\<close> (lines 51--53 and 69--70): the value of
  \<open>TZ\<close> afterwards.\<close>

definition set_tz :: "string \<Rightarrow> string option \<Rightarrow> string option" where
  "set_tz zone tz = (if zone \<noteq> [] then Some zone else tz)"

text \<open>Lines 55--65 (and 71--81 for the secondary zone): the date and the time,
  formatted with the pair of formats the toggle selects.\<close>

definition format_pair :: "strftime_fn \<Rightarrow> string option \<Rightarrow> int \<Rightarrow> date_module \<Rightarrow> string \<times> string" where
  "format_pair put tz now m =
     (put tz now (if m_toggled m then m_dateformat_alt m else m_dateformat m),
      put tz now (if m_toggled m then m_timeformat_alt m else m_timeformat m))"

text \<open>Lines 101--105: \<open>TZ\<close> is written back only when \<open>getenv\<close> had returned a value.\<close>

definition restore_tz :: "string option \<Rightarrow> string option \<Rightarrow> string option" where
  "restore_tz orig tz = (case orig of None \<Rightarrow> tz | Some z \<Rightarrow> Some z)"

text \<open>
  \<open>date_update put now tz m\<close>: the result of \<open>update()\<close>, the module after it, and
  the value of \<open>TZ\<close> it leaves. The restore is on the path that reports a change
  only: the early return of line 85 skips it.
\<close>

definition date_update ::
  "strftime_fn \<Rightarrow> int \<Rightarrow> string option \<Rightarrow> date_module \<Rightarrow> (bool \<times> date_module) \<times> string option" where
  "date_update put now tz m =
     (let orig = tz;
          tz1 = set_tz (m_time_timezone m) tz;
          p1 = format_pair put tz1 now m;
          tz2 = set_tz (m_time_timezone_2 m) tz1;
          p2 = (if m_time_timezone_2 m \<noteq> [] then format_pair put tz2 now m else ([], []));
          ds = fst p1; ts = snd p1; ds2 = fst p2; ts2 = snd p2
      in if m_date m = ds \<and> m_time m = ts then ((False, m), tz2)
         else ((True, m\<lparr>m_date := ds, m_date_2 := ds2, m_time := ts, m_time_2 := ts2,
                        m_label := map_option (fill_label ds ds2 ts ts2) (m_label m)\<rparr>),
               restore_tz orig tz2))"

subsection \<open>build() (lines 110--124)\<close>

datatype mousebtn = NONE | LEFT | MIDDLE | RIGHT | SCROLL_UP | SCROLL_DOWN

datatype bnode = Cmd mousebtn string | Node string | CmdClose

text \<open>\<open>builder::node(label)\<close> emits nothing for a null or empty label.\<close>

definition node :: "label option \<Rightarrow> bnode list" where
  "node l = (case l of None \<Rightarrow> [] | Some x \<Rightarrow> if l_tokenized x = [] then [] else [Node (l_tokenized x)])"

definition date_build :: "date_module \<Rightarrow> string \<Rightarrow> bool \<times> bnode list" where
  "date_build m tag =
     (if tag = TAG_LABEL then
        (if m_dateformat_alt m \<noteq> [] \<or> m_timeformat_alt m \<noteq> []
         then (True, [Cmd LEFT EVENT_TOGGLE] @ node (m_label m) @ [CmdClose])
         else (True, node (m_label m)))
      else (False, []))"

subsection \<open>input() (lines 126--133)\<close>

definition date_input :: "string \<Rightarrow> date_module module \<Rightarrow> bool \<times> date_module module" where
  "date_input cmd s =
     (if cmd \<noteq> EVENT_TOGGLE then (False, s)
      else (True, wakeup (s\<lparr>m_impl := (m_impl s)\<lparr>m_toggled := \<not> m_toggled (m_impl s)\<rparr>\<rparr>)))"

subsection \<open>Well-formedness\<close>

text \<open>
  What the constructor guarantees of a date module and every operation keeps:
  a date or a time format is configured (lines 23--25), the format no longer
  holds the deprecated \<open><date>\<close> tag (lines 31--36), and the label is loaded
  exactly when the format uses \<open><label>\<close> (lines 38--40).
\<close>

definition date_wf :: "date_module \<Rightarrow> bool" where
  "date_wf m \<longleftrightarrow> (m_dateformat m \<noteq> [] \<or> m_timeformat m \<noteq> [])
     \<and> \<not> occurs TAG_DATE (m_format m)
     \<and> (m_label m = None \<longleftrightarrow> \<not> occurs TAG_LABEL (m_format m))"

subsection \<open>An instance for the witnesses\<close>

text \<open>A stand-in for \<open>put_time(localtime(..))\<close>: the format, the zone's name and one
  dot per second, so that strings differ across zones and instants.\<close>

definition demo_put :: strftime_fn where
  "demo_put tz now f =
     (if f = [] then [] else f @ (case tz of None \<Rightarrow> [] | Some z \<Rightarrow> z) @ replicate (nat now) (CHR ''.''))"

definition demo_conf :: config where
  "demo_conf = \<lparr>cf_str = (\<lambda>k. if k = ''time'' then Some ''\"%H:%M\"''
                              else if k = ''time-2-TZ'' then Some ''Asia/Tokyo'' else None),
                cf_dur = (\<lambda>_. None)\<rparr>"

text \<open>A configuration that still uses the deprecated \<open><date>\<close> tag.\<close>

definition demo_conf_dep :: config where
  "demo_conf_dep = demo_conf\<lparr>cf_str := (\<lambda>k. if k = ''format'' then Some ''<date>'' else cf_str demo_conf k)\<rparr>"

definition demo_date :: date_module where
  "demo_date = \<lparr>m_dateformat = [], m_dateformat_alt = [], m_timeformat = ''%H:%M'',
     m_time_timezone = [], m_time_timezone_2 = ''Asia/Tokyo'', m_timeformat_alt = [],
     m_interval = 1000, m_format = ''<label>'',
     m_label = Some \<lparr>l_text = ''%date%'', l_tokenized = ''%date%''\<rparr>, m_toggled = False,
     m_date = [], m_date_2 = [], m_time = [], m_time_2 = []\<rparr>"

subsection \<open>Properties of the date module\<close>

lemmas date_update_defs = date_update_def set_tz_def format_pair_def restore_tz_def Let_def

lemma fill_label_reset: "fill_label d d2 t t2 (l\<lparr>l_tokenized := x\<rparr>) = fill_label d d2 t t2 l"
  by (simp add: fill_label_def reset_tokens_def)

text \<open>\<open>update()\<close> writes the four content strings and the label and nothing else.\<close>

lemma date_update_frame:
  "snd (fst (date_update put now tz m)) =
     m\<lparr>m_date := m_date (snd (fst (date_update put now tz m))),
       m_date_2 := m_date_2 (snd (fst (date_update put now tz m))),
       m_time := m_time (snd (fst (date_update put now tz m))),
       m_time_2 := m_time_2 (snd (fst (date_update put now tz m))),
       m_label := m_label (snd (fst (date_update put now tz m)))\<rparr>"
  by (simp add: date_update_defs)

text \<open>The deprecation rewrite of lines 34--35 leaves no \<open><date>\<close> and, where there
  was one, introduces \<open><label>\<close>.\<close>

lemma date_tag_rewrite:
  "\<not> occurs TAG_DATE (replace_all s TAG_DATE TAG_LABEL)"
  "occurs TAG_DATE s \<Longrightarrow> occurs TAG_LABEL (replace_all s TAG_DATE TAG_LABEL)"
   apply (rule replace_all_removes; simp add: TAG_DATE_def TAG_LABEL_def)
  by (erule replace_all_inserts) (simp add: TAG_DATE_def)

text \<open>What a successful construction yields for the format and the label.\<close>

lemma date_ctor_format:
  assumes "date_ctor c = Inr m"
  shows "m_format m = (if occurs TAG_DATE (conf_get c ''format'' TAG_LABEL)
                       then replace_all (conf_get c ''format'' TAG_LABEL) TAG_DATE TAG_LABEL
                       else conf_get c ''format'' TAG_LABEL)"
    and "m_label m = (if occurs TAG_LABEL (m_format m)
                      then Some (load_optional_label c ''label'' ''%date%'') else None)"
    and "m_dateformat m \<noteq> [] \<or> m_timeformat m \<noteq> []"
  using assms by (auto simp: date_ctor_def Let_def split: if_splits)


text \<open>C14. Functional behaviour of \<open>update()\<close>: afterwards \<open>m_date\<close> and \<open>m_time\<close> hold
  the current time formatted with the format pair the toggle selects, in the zone
  \<open>time-TZ\<close> when set and in the process's \<open>TZ\<close> otherwise; the result is true exactly
  when one of the two strings changed.\<close>

theorem date_update_functional:
  assumes "date_update put now tz m = ((changed, m'), tz')"
  shows "m_date m' = put (if m_time_timezone m \<noteq> [] then Some (m_time_timezone m) else tz) now
                        (if m_toggled m then m_dateformat_alt m else m_dateformat m)
       \<and> m_time m' = put (if m_time_timezone m \<noteq> [] then Some (m_time_timezone m) else tz) now
                        (if m_toggled m then m_timeformat_alt m else m_timeformat m)
       \<and> (changed \<longleftrightarrow> m_date m' \<noteq> m_date m \<or> m_time m' \<noteq> m_time m)
       \<and> m_toggled m' = m_toggled m"
  using assms by (auto simp: date_update_defs split: if_splits)

text \<open>C15. Idempotence: a second \<open>update()\<close> at the same instant reports ``unchanged''
  and leaves the module as it is, so it triggers no broadcast, provided the primary
  zone does not depend on the process's \<open>TZ\<close> or no secondary zone is configured.\<close>

theorem date_update_idempotent:
  assumes "m_time_timezone m \<noteq> [] \<or> m_time_timezone_2 m = []"
    and "date_update put now tz m = ((changed, m'), tz')"
  shows "fst (date_update put now tz' m') = (False, m')"
  using assms by (cases tz) (auto simp: date_update_defs split: if_splits)

text \<open>C16. When \<open>TZ\<close> was set and the update reports a change, the original value of
  \<open>TZ\<close> is restored, as the comment of line 101 intends.\<close>

theorem date_update_restores_tz:
  assumes "tz = Some z" and "fst (fst (date_update put now tz m))"
  shows "snd (date_update put now tz m) = Some z"
  using assms by (auto simp: date_update_defs split: if_splits)

text \<open>C17. The early return of line 85 skips the restore: an update that finds nothing
  changed leaves \<open>TZ\<close> set to the secondary zone, for every other module of the
  process.\<close>

theorem date_update_unchanged_leaks_tz:
  assumes "m_time_timezone_2 m \<noteq> []" and "\<not> fst (fst (date_update put now tz m))"
  shows "snd (date_update put now tz m) = Some (m_time_timezone_2 m)"
  using assms by (auto simp: date_update_defs split: if_splits)

text \<open>C18. Consequence in the module itself: with a secondary zone and no \<open>time-TZ\<close>,
  after one update that found nothing changed, the next update formats the primary
  date and time in the secondary zone.\<close>

theorem date_update_primary_in_secondary_zone:
  assumes "m_time_timezone m = []" and "m_time_timezone_2 m \<noteq> []"
    and "date_update put now tz m = ((False, m1), tz1)"
  shows "m_time (snd (fst (date_update put later tz1 m1))) =
           put (Some (m_time_timezone_2 m)) later
             (if m_toggled m then m_timeformat_alt m else m_timeformat m)"
  using assms by (auto simp: date_update_defs split: if_splits)

text \<open>C19. When \<open>TZ\<close> was unset, \<open>update()\<close> never unsets it again: with a zone
  configured, every update leaves \<open>TZ\<close> set.\<close>

theorem date_update_unset_tz_stays_set:
  assumes "tz = None" and "m_time_timezone m \<noteq> [] \<or> m_time_timezone_2 m \<noteq> []"
  shows "snd (date_update put now tz m) \<noteq> None"
  using assms by (auto simp: date_update_defs split: if_splits)


text \<open>C21. After an update that reports a change, the label shows its template with the
  four tokens replaced by the new strings, whatever it showed before
  (\<open>reset_tokens()\<close> first).\<close>

theorem date_update_label:
  assumes "date_update put now tz m = ((True, m'), tz')" and "m_label m = Some l"
  shows "m_label m' = Some (fill_label (m_date m') (m_date_2 m') (m_time m') (m_time_2 m')
                              (l\<lparr>l_tokenized := x\<rparr>))"
  using assms by (auto simp: date_update_defs fill_label_reset split: if_splits)


text \<open>C23. \<open>input()\<close> accepts only the toggle command; it flips the toggle and wakes the
  worker, and touches nothing else: not the content strings, not the label, not the
  lock (the content is only rewritten by the worker's next \<open>update()\<close>).\<close>

theorem date_input_only_toggles:
  "fst (date_input cmd s) = (cmd = EVENT_TOGGLE)
   \<and> m_impl (snd (date_input cmd s)) = (m_impl s)\<lparr>m_toggled := (m_toggled (m_impl s) \<noteq> (cmd = EVENT_TOGGLE))\<rparr>
   \<and> m_locked (snd (date_input cmd s)) = m_locked s
   \<and> m_enabled (snd (date_input cmd s)) = m_enabled s
   \<and> m_trace (snd (date_input cmd s)) = m_trace s @ (if cmd = EVENT_TOGGLE then [AWakeup] else [])"
  by (simp add: date_input_def wakeup_def emit_def)

text \<open>C24. \<open>build()\<close> answers only the \<open><label>\<close> tag; it wraps the label in a left-click
  command for the toggle exactly when an alternative format is configured, and every
  command it opens is closed.\<close>

theorem date_build_clickable:
  assumes "date_build m tag = (ok, out)"
  shows "(ok \<longleftrightarrow> tag = TAG_LABEL)
       \<and> (Cmd LEFT EVENT_TOGGLE \<in> set out \<longleftrightarrow> ok \<and> (m_dateformat_alt m \<noteq> [] \<or> m_timeformat_alt m \<noteq> []))
       \<and> count_list out CmdClose = length (filter (\<lambda>n. \<exists>b c. n = Cmd b c) out)
       \<and> (ok \<longrightarrow> filter (\<lambda>n. \<exists>x. n = Node x) out = node (m_label m))"
proof -
  have nd: "\<forall>n \<in> set (node l). \<exists>x. n = Node x" for l
    by (auto simp: node_def split: option.splits)
  have "count_list (node l) CmdClose = 0" "Cmd b c \<notin> set (node l)" for l b c
    using nd [of l] by (auto simp: count_list_0_iff)
  moreover have "filter (\<lambda>n. \<exists>b c. n = Cmd b c) (node l) = []" for l
    using nd [of l] by (auto simp: filter_empty_conv)
  moreover have "filter (\<lambda>n. \<exists>x. n = Node x) (node l) = node l" for l
    using nd [of l] by (simp add: filter_id_conv)
  ultimately show ?thesis using assms by (auto simp: date_build_def split: if_splits)
qed

text \<open>C34. The deprecated \<open><date>\<close> tag does not survive the constructor: every
  occurrence in the configured format is rewritten to \<open><label>\<close> (line 35), none is
  formed across a rewrite, and a format that used \<open><date>\<close> gets its label loaded
  (line 39).\<close>

theorem date_ctor_no_date_tag:
  assumes "date_ctor c = Inr m"
  shows "\<not> occurs TAG_DATE (m_format m)
       \<and> (occurs TAG_DATE (conf_get c ''format'' TAG_LABEL) \<longrightarrow> m_label m \<noteq> None)"
  using date_ctor_format [OF assms] date_tag_rewrite by auto

text \<open>C37. Every module the constructor returns is well-formed.\<close>

theorem date_ctor_wf:
  assumes "date_ctor c = Inr m"
  shows "date_wf m"
  using date_ctor_format [OF assms] date_tag_rewrite(1) by (auto simp: date_wf_def)

subsection \<open>Witnesses\<close>

lemmas date_eval = date_update_defs demo_put_def demo_date_def

lemma date_ctor_demo: "date_ctor demo_conf = Inr demo_date"
  by (simp add: date_ctor_def demo_conf_def demo_date_def conf_format_def conf_get_def
      trim_def ltrim_def rtrim_def TAG_LABEL_def TAG_DATE_def load_optional_label_def Let_def)

theorem date_update_functional_witness:
  "date_update demo_put 3 (Some ''UTC'') demo_date =
     ((fst (fst (date_update demo_put 3 (Some ''UTC'') demo_date)),
       snd (fst (date_update demo_put 3 (Some ''UTC'') demo_date))),
      snd (date_update demo_put 3 (Some ''UTC'') demo_date))
   \<and> m_time (snd (fst (date_update demo_put 3 (Some ''UTC'') demo_date))) = demo_put (Some ''UTC'') 3 ''%H:%M''"
proof -
  let ?r = "date_update demo_put 3 (Some ''UTC'') demo_date"
  have h: "?r = ((fst (fst ?r), snd (fst ?r)), snd ?r)" by simp
  note f = date_update_functional [OF h]
  have "m_time (snd (fst ?r)) = demo_put (Some ''UTC'') 3 ''%H:%M''"
    using f by (simp add: demo_date_def)
  with h show ?thesis by blast
qed

theorem date_update_idempotent_witness:
  "m_time_timezone_2 (demo_date\<lparr>m_time_timezone_2 := []\<rparr>) = []
   \<and> date_update demo_put 3 None (demo_date\<lparr>m_time_timezone_2 := []\<rparr>) =
       ((True, snd (fst (date_update demo_put 3 None (demo_date\<lparr>m_time_timezone_2 := []\<rparr>)))), None)
   \<and> fst (date_update demo_put 3 None (snd (fst (date_update demo_put 3 None (demo_date\<lparr>m_time_timezone_2 := []\<rparr>)))))
       = (False, snd (fst (date_update demo_put 3 None (demo_date\<lparr>m_time_timezone_2 := []\<rparr>))))"
proof -
  have h1: "m_time_timezone (demo_date\<lparr>m_time_timezone_2 := []\<rparr>) \<noteq> [] \<or> m_time_timezone_2 (demo_date\<lparr>m_time_timezone_2 := []\<rparr>) = []"
    by simp
  have h2: "date_update demo_put 3 None (demo_date\<lparr>m_time_timezone_2 := []\<rparr>) =
       ((True, snd (fst (date_update demo_put 3 None (demo_date\<lparr>m_time_timezone_2 := []\<rparr>)))), None)"
    by (simp add: date_eval)
  show ?thesis using h2 date_update_idempotent [OF h1 h2] by simp
qed

theorem date_update_restores_tz_witness:
  "Some ''UTC'' = Some ''UTC'' \<and> fst (fst (date_update demo_put 3 (Some ''UTC'') demo_date))
   \<and> snd (date_update demo_put 3 (Some ''UTC'') demo_date) = Some ''UTC''"
proof -
  have h1: "Some ''UTC'' = Some ''UTC''" by simp
  have h2: "fst (fst (date_update demo_put 3 (Some ''UTC'') demo_date))" by (simp add: date_eval)
  show ?thesis using h1 h2 date_update_restores_tz [OF h1 h2] by blast
qed

text \<open>Two updates within the same second: the first reports the new time and restores
  \<open>TZ\<close>, the second finds nothing changed.\<close>

theorem date_update_unchanged_leaks_tz_witness:
  "m_time_timezone_2 (snd (fst (date_update demo_put 3 (Some ''UTC'') demo_date))) \<noteq> []
   \<and> \<not> fst (fst (date_update demo_put 3 (Some ''UTC'') (snd (fst (date_update demo_put 3 (Some ''UTC'') demo_date)))))
   \<and> snd (date_update demo_put 3 (Some ''UTC'') (snd (fst (date_update demo_put 3 (Some ''UTC'') demo_date))))
       = Some ''Asia/Tokyo''"
proof -
  let ?m = "snd (fst (date_update demo_put 3 (Some ''UTC'') demo_date))"
  have h1: "m_time_timezone_2 ?m \<noteq> []" by (simp add: date_eval)
  have h2: "\<not> fst (fst (date_update demo_put 3 (Some ''UTC'') ?m))" by (simp add: date_eval)
  have "snd (date_update demo_put 3 (Some ''UTC'') ?m) = Some (m_time_timezone_2 ?m)"
    by (rule date_update_unchanged_leaks_tz [OF h1 h2])
  with h1 h2 show ?thesis by (simp add: date_eval)
qed

theorem date_update_primary_in_secondary_zone_witness:
  "m_time_timezone (snd (fst (date_update demo_put 3 (Some ''UTC'') demo_date))) = []
   \<and> m_time_timezone_2 (snd (fst (date_update demo_put 3 (Some ''UTC'') demo_date))) \<noteq> []
   \<and> date_update demo_put 3 (Some ''UTC'') (snd (fst (date_update demo_put 3 (Some ''UTC'') demo_date))) =
       ((False, snd (fst (date_update demo_put 3 (Some ''UTC'') demo_date))), Some ''Asia/Tokyo'')
   \<and> m_time (snd (fst (date_update demo_put 4 (Some ''Asia/Tokyo'')
        (snd (fst (date_update demo_put 3 (Some ''UTC'') demo_date)))))) = demo_put (Some ''Asia/Tokyo'') 4 ''%H:%M''"
proof -
  let ?m = "snd (fst (date_update demo_put 3 (Some ''UTC'') demo_date))"
  have h1: "m_time_timezone ?m = []" by (simp add: date_eval)
  have h2: "m_time_timezone_2 ?m \<noteq> []" by (simp add: date_eval)
  have h3: "date_update demo_put 3 (Some ''UTC'') ?m = ((False, ?m), Some ''Asia/Tokyo'')"
    by (simp add: date_eval)
  have "m_time (snd (fst (date_update demo_put 4 (Some ''Asia/Tokyo'') ?m))) =
          demo_put (Some (m_time_timezone_2 ?m)) 4
            (if m_toggled ?m then m_timeformat_alt ?m else m_timeformat ?m)"
    by (rule date_update_primary_in_secondary_zone [OF h1 h2 h3])
  with h1 h2 h3 show ?thesis by (simp add: date_eval)
qed

theorem date_update_unset_tz_stays_set_witness:
  "(None :: string option) = None
   \<and> m_time_timezone_2 demo_date = ''Asia/Tokyo''
   \<and> snd (date_update demo_put 3 None demo_date) \<noteq> None"
proof -
  have h1: "(None :: string option) = None" by simp
  have h2: "m_time_timezone demo_date \<noteq> [] \<or> m_time_timezone_2 demo_date \<noteq> []"
    by (simp add: demo_date_def)
  show ?thesis using h1 date_update_unset_tz_stays_set [OF h1 h2] by (simp add: demo_date_def)
qed

theorem date_update_label_witness:
  "date_update demo_put 3 (Some ''UTC'') demo_date =
     ((True, snd (fst (date_update demo_put 3 (Some ''UTC'') demo_date))), Some ''UTC'')
   \<and> m_label demo_date = Some \<lparr>l_text = ''%date%'', l_tokenized = ''%date%''\<rparr>
   \<and> m_label (snd (fst (date_update demo_put 3 (Some ''UTC'') demo_date))) =
       Some (fill_label (m_date (snd (fst (date_update demo_put 3 (Some ''UTC'') demo_date))))
                (m_date_2 (snd (fst (date_update demo_put 3 (Some ''UTC'') demo_date))))
                (m_time (snd (fst (date_update demo_put 3 (Some ''UTC'') demo_date))))
                (m_time_2 (snd (fst (date_update demo_put 3 (Some ''UTC'') demo_date))))
                \<lparr>l_text = ''%date%'', l_tokenized = []\<rparr>)"
proof -
  have h1: "date_update demo_put 3 (Some ''UTC'') demo_date =
     ((True, snd (fst (date_update demo_put 3 (Some ''UTC'') demo_date))), Some ''UTC'')"
    by (simp add: date_eval)
  have h2: "m_label demo_date = Some \<lparr>l_text = ''%date%'', l_tokenized = ''%date%''\<rparr>"
    by (simp add: demo_date_def)
  have "m_label (snd (fst (date_update demo_put 3 (Some ''UTC'') demo_date))) =
       Some (fill_label (m_date (snd (fst (date_update demo_put 3 (Some ''UTC'') demo_date))))
                (m_date_2 (snd (fst (date_update demo_put 3 (Some ''UTC'') demo_date))))
                (m_time (snd (fst (date_update demo_put 3 (Some ''UTC'') demo_date))))
                (m_time_2 (snd (fst (date_update demo_put 3 (Some ''UTC'') demo_date))))
                (\<lparr>l_text = ''%date%'', l_tokenized = ''%date%''\<rparr>\<lparr>l_tokenized := []\<rparr>))"
    by (rule date_update_label [OF h1 h2])
  with h1 h2 show ?thesis by simp
qed

theorem date_ctor_no_date_tag_witness:
  "date_ctor demo_conf_dep = Inr demo_date
   \<and> occurs TAG_DATE (conf_get demo_conf_dep ''format'' TAG_LABEL)
   \<and> \<not> occurs TAG_DATE (m_format demo_date) \<and> m_label demo_date \<noteq> None"
proof -
  have h: "date_ctor demo_conf_dep = Inr demo_date"
    by (simp add: date_ctor_def demo_conf_dep_def demo_conf_def demo_date_def conf_format_def
        conf_get_def trim_def ltrim_def rtrim_def TAG_LABEL_def TAG_DATE_def
        load_optional_label_def Let_def)
  have o: "occurs TAG_DATE (conf_get demo_conf_dep ''format'' TAG_LABEL)"
    by (simp add: demo_conf_dep_def conf_get_def TAG_DATE_def)
  show ?thesis using h o date_ctor_no_date_tag [OF h] by simp
qed

theorem date_ctor_wf_witness:
  "date_ctor demo_conf = Inr demo_date \<and> date_wf demo_date"
  using date_ctor_demo date_ctor_wf [OF date_ctor_demo] by simp

theorem date_build_clickable_witness:
  "date_build (demo_date\<lparr>m_timeformat_alt := ''%H:%M:%S''\<rparr>) TAG_LABEL =
     (True, [Cmd LEFT EVENT_TOGGLE, Node ''%date%'', CmdClose])
   \<and> Cmd LEFT EVENT_TOGGLE \<in> set [Cmd LEFT EVENT_TOGGLE, Node ''%date%'', CmdClose]"
proof -
  have h: "date_build (demo_date\<lparr>m_timeformat_alt := ''%H:%M:%S''\<rparr>) TAG_LABEL =
     (True, [Cmd LEFT EVENT_TOGGLE, Node ''%date%'', CmdClose])"
    by (simp add: date_build_def demo_date_def node_def)
  have "Cmd LEFT EVENT_TOGGLE \<in> set [Cmd LEFT EVENT_TOGGLE, Node ''%date%'', CmdClose]"
    using date_build_clickable [OF h] by (simp add: demo_date_def)
  with h show ?thesis by blast
qed

end
