(* ===== verification/Date_Timer.thy ===== *)
theory Date_Timer
  imports Timer_Module Date_Module
begin

text \<open>
  The date module as it runs: \<open>date_module\<close> derives from
  \<open>timer_module<date_module>\<close> (\<open>src/src/modules/date.cpp\<close> line 11), so its worker
  is the timer runner with \<open>date_module::update()\<close> as the hook. \<open>update()\<close> reads
  the wall clock with \<open>std::time(nullptr)\<close> (line 44), in seconds, and the
  process-wide \<open>TZ\<close>, which is the runner's environment here: the module runs
  alone in its process, or the other modules leave \<open>TZ\<close> alone.
\<close>

definition date_hook :: "strftime_fn \<Rightarrow> (string option, date_module) timed_update" where
  "date_hook put t tz m =
     (case date_update put (int (t div 1000)) tz m of ((c, m'), tz') \<Rightarrow> (Inr c, m', tz'))"

text \<open>\<open>input("datetoggle")\<close> from another thread during a sleep: it flips the toggle
  and wakes the worker \<open>k\<close> ms into the sleep.\<close>

definition toggle_wake :: "nat \<Rightarrow> date_module sleep_end" where
  "toggle_wake k = Woken k (\<lambda>m. m\<lparr>m_toggled := \<not> m_toggled m\<rparr>)"



text \<open>What the module shows at an instant, in a zone.\<close>

definition shown :: "strftime_fn \<Rightarrow> string option \<Rightarrow> date_module \<Rightarrow> nat \<Rightarrow> string \<times> string" where
  "shown put z m t = format_pair put z (int (t div 1000)) m"

text \<open>\<open>changes x ys\<close>: how many elements of \<open>ys\<close> differ from the one before them,
  \<open>x\<close> standing before the first.\<close>

fun changes :: "'a \<Rightarrow> 'a list \<Rightarrow> nat" where
  "changes x [] = 0"
| "changes x (y # ys) = (if x = y then 0 else 1) + changes y ys"

text \<open>A started date module without a secondary zone, for the witnesses.\<close>

definition date_worker :: "date_module module" where
  "date_worker = \<lparr>m_name = ''date'', m_enabled = True, m_thread = True, m_changed = False,
     m_locked = False, m_errors = [], m_trace = [], m_impl = demo_date\<lparr>m_time_timezone_2 := []\<rparr>\<rparr>"

subsection \<open>Lemmas\<close>

lemma date_update_keeps [simp]:
  "m_toggled (snd (fst (date_update put now tz m))) = m_toggled m"
  "m_dateformat (snd (fst (date_update put now tz m))) = m_dateformat m"
  "m_dateformat_alt (snd (fst (date_update put now tz m))) = m_dateformat_alt m"
  "m_timeformat (snd (fst (date_update put now tz m))) = m_timeformat m"
  "m_timeformat_alt (snd (fst (date_update put now tz m))) = m_timeformat_alt m"
  "m_time_timezone (snd (fst (date_update put now tz m))) = m_time_timezone m"
  "m_time_timezone_2 (snd (fst (date_update put now tz m))) = m_time_timezone_2 m"
  by (subst date_update_frame, simp)+




lemma toggle_wake_is_input:
  "tm_sleep T (toggle_wake k) t s =
     (t + min k T, emit (ASleep (min k T)) (snd (date_input EVENT_TOGGLE s)))"
  by (simp add: toggle_wake_def date_input_def)

lemma date_hook_no_raise: "\<forall>t e i. \<not> isl (fst (date_hook put t e i))"
  by (simp add: date_hook_def split: prod.splits)

text \<open>One update with no secondary zone: the strings shown afterwards, whether it
  reported a change, and that the zone it formats in stays the same.\<close>

lemma date_update_single_zone:
  assumes "m_time_timezone_2 m = []" and "date_update put now tz m = ((c, m'), tz')"
  shows "(m_date m', m_time m') = format_pair put (set_tz (m_time_timezone m) tz) now m"
    and "c \<longleftrightarrow> (m_date m', m_time m') \<noteq> (m_date m, m_time m)"
    and "format_pair put z n m' = format_pair put z n m"
    and "m_time_timezone m' = m_time_timezone m" "m_time_timezone_2 m' = []"
    and "set_tz (m_time_timezone m) tz' = set_tz (m_time_timezone m) tz"
  using assms by (cases tz; auto simp: date_update_defs split: if_splits)+

lemma date_hook_changes:
  assumes "m_time_timezone_2 m = []"
  shows "count_list (fst (upd_seq (date_hook put) ts tz m)) (Inr True) =
           changes (m_date m, m_time m) (map (shown put (set_tz (m_time_timezone m) tz) m) ts)"
  using assms
proof (induction ts arbitrary: tz m)
  case Nil
  then show ?case by simp
next
  case (Cons t ts)
  obtain c m' tz' where u: "date_update put (int (t div 1000)) tz m = ((c, m'), tz')"
    by (metis prod.collapse)
  note f = date_update_single_zone [OF Cons.prems u]
  have step: "fst (upd_seq (date_hook put) (t # ts) tz m) = Inr c # fst (upd_seq (date_hook put) ts tz' m')"
    using u by (simp add: date_hook_def split: prod.split)
  have "map (shown put (set_tz (m_time_timezone m') tz') m') ts =
        map (shown put (set_tz (m_time_timezone m) tz) m) ts"
    using f(3,4,6) by (simp add: shown_def)
  then have ih: "count_list (fst (upd_seq (date_hook put) ts tz' m')) (Inr True) =
           changes (m_date m', m_time m') (map (shown put (set_tz (m_time_timezone m) tz) m) ts)"
    using Cons.IH f(5) by metis
  have sh: "shown put (set_tz (m_time_timezone m) tz) m t = (m_date m', m_time m')"
    using f(1) by (simp add: shown_def)
  show ?case using f(2) by (simp only: step ih sh list.map count_list.simps changes.simps) simp
qed





lemma stop_at_runner:
  assumes "running s" "\<not> m_locked s"
  obtains tz' s' where
    "tm_runner (date_hook put) T (stop_at T D) 0 tz s =
       (Exited, D div T * T + min (D mod T) T, tz', s')"
    "m_impl s' = snd (snd (upd_seq (date_hook put) (tick_times 0 T (D div T)) tz (m_impl s)))"
    "\<not> running s'" "\<not> m_locked s'"
    "length (filter is_update (new_actions s s')) = Suc (D div T)"
    "count_list (new_actions s s') ABroadcast =
       count_list (fst (upd_seq (date_hook put) (tick_times 0 T (D div T)) tz (m_impl s))) (Inr True)"
proof -
  obtain s' d where l: "tm_loop (date_hook put) T (stop_at T D) 0 tz s =
      (Exited, D div T * T + min (D mod T) T,
       fst (snd (upd_seq (date_hook put) (tick_times 0 T (D div T)) tz (m_impl s))), s')"
    "m_impl s' = snd (snd (upd_seq (date_hook put) (tick_times 0 T (D div T)) tz (m_impl s)))"
    "\<not> running s'" "\<not> m_locked s'" "m_trace s' = m_trace s @ d"
    "length (filter is_update d) = Suc (D div T)"
    "count_list d ABroadcast =
       count_list (fst (upd_seq (date_hook put) (tick_times 0 T (D div T)) tz (m_impl s))) (Inr True)"
    using tm_loop_ticks [OF date_hook_no_raise [of put] assms, where T=T and n="D div T" and k="D mod T" and t=0 and e=tz]
    unfolding stop_at_def add_0 by blast
  show ?thesis
    by (rule that [of _ s']) (use l in \<open>simp_all add: tm_runner_def new_actions_eq\<close>)
qed

text \<open>C25. Spec section 8, timer-driven module: with interval \<open>T\<close> and no early
  wake-up, a date module stopped \<open>D\<close> ms after start-up calls \<open>update()\<close> exactly
  \<open>floor(D/T) + 1\<close> times (the warm-up included), returns normally, and its worker
  ends at time \<open>D\<close>.\<close>

theorem date_timer_update_count:
  assumes "0 < T" and "running s" and "\<not> m_locked s"
  shows "\<exists>tz' s'. tm_runner (date_hook put) T (stop_at T D) 0 tz s = (Exited, D, tz', s')
           \<and> length (filter is_update (new_actions s s')) = D div T + 1 \<and> \<not> running s'"
proof -
  obtain tz' s' where r: "tm_runner (date_hook put) T (stop_at T D) 0 tz s =
       (Exited, D div T * T + min (D mod T) T, tz', s')"
    "m_impl s' = snd (snd (upd_seq (date_hook put) (tick_times 0 T (D div T)) tz (m_impl s)))"
    "\<not> running s'" "\<not> m_locked s'"
    "length (filter is_update (new_actions s s')) = Suc (D div T)"
    "count_list (new_actions s s') ABroadcast =
       count_list (fst (upd_seq (date_hook put) (tick_times 0 T (D div T)) tz (m_impl s))) (Inr True)"
    using assms(2,3) by (rule stop_at_runner)
  show ?thesis using r(1,3,5) stop_at_clock [OF assms(1)] by simp
qed

text \<open>C26. Spec section 8, scenario of the clock module: without a secondary zone the
  date module broadcasts once at start-up when its strings differ from the stored ones,
  and then exactly at the ticks whose formatted strings differ from those of the tick
  before; the zone is \<open>time-TZ\<close> when set and the process's \<open>TZ\<close> otherwise.\<close>

theorem date_timer_broadcasts:
  assumes "running s" and "\<not> m_locked s" and "m_time_timezone_2 (m_impl s) = []"
  shows "count_list (new_actions s (snd (snd (snd (tm_runner (date_hook put) T (stop_at T D) 0 tz s)))))
           ABroadcast =
         changes (m_date (m_impl s), m_time (m_impl s))
           (map (shown put (set_tz (m_time_timezone (m_impl s)) tz) (m_impl s)) (tick_times 0 T (D div T)))"
proof -
  obtain tz' s' where r: "tm_runner (date_hook put) T (stop_at T D) 0 tz s =
       (Exited, D div T * T + min (D mod T) T, tz', s')"
    "m_impl s' = snd (snd (upd_seq (date_hook put) (tick_times 0 T (D div T)) tz (m_impl s)))"
    "\<not> running s'" "\<not> m_locked s'"
    "length (filter is_update (new_actions s s')) = Suc (D div T)"
    "count_list (new_actions s s') ABroadcast =
       count_list (fst (upd_seq (date_hook put) (tick_times 0 T (D div T)) tz (m_impl s))) (Inr True)"
    using assms(1,2) by (rule stop_at_runner)
  show ?thesis using r(1,6) date_hook_changes [OF assms(3)] by simp
qed


text \<open>C28. Spec section 4.3: whatever other threads do while the worker sleeps
  (toggles through \<open>input()\<close>, early wake-ups, \<open>stop()\<close>), the date module's worker
  takes the content lock only when free, calls \<open>update()\<close> only under it, never sleeps
  holding it, and leaves it free.\<close>

theorem date_timer_lock_discipline:
  assumes "\<not> m_locked s"
  shows "lock_walk False (new_actions s (snd (snd (snd (tm_runner (date_hook put) T sched t tz s)))))
           = Some False
         \<and> \<not> m_locked (snd (snd (snd (tm_runner (date_hook put) T sched t tz s))))"
  using tm_runner_lock [OF assms, of "date_hook put" T sched t tz]
  by (auto simp: lock_ext_def new_actions_eq)

text \<open>C29. Spec section 4.3: a toggle through \<open>input()\<close> while the worker sleeps
  short-circuits the wait. The next \<open>update()\<close> runs when the toggle arrives,
  \<open>k\<close> ms into the sleep, not at the next tick, and it shows the time in the other
  format.\<close>

theorem date_timer_toggle_early:
  assumes "running s" and "\<not> m_locked s" and "m_time_timezone_2 (m_impl s) = []" and "k < T"
  shows "fst (tm_runner (date_hook put) T [toggle_wake k, Stopped j] t tz s) = Exited
       \<and> fst (snd (tm_runner (date_hook put) T [toggle_wake k, Stopped j] t tz s)) = t + k + min j T
       \<and> length (filter is_update (new_actions s
             (snd (snd (snd (tm_runner (date_hook put) T [toggle_wake k, Stopped j] t tz s)))))) = 2
       \<and> m_toggled (m_impl (snd (snd (snd (tm_runner (date_hook put) T [toggle_wake k, Stopped j] t tz s)))))
           = (\<not> m_toggled (m_impl s))
       \<and> m_time (m_impl (snd (snd (snd (tm_runner (date_hook put) T [toggle_wake k, Stopped j] t tz s)))))
           = put (set_tz (m_time_timezone (m_impl s)) tz) (int ((t + k) div 1000))
               (if m_toggled (m_impl s) then m_timeformat (m_impl s) else m_timeformat_alt (m_impl s))"
proof -
  let ?m = "m_impl s"
  let ?f = "\<lambda>m. m\<lparr>m_toggled := \<not> m_toggled m\<rparr>"
  obtain c1 m1 tz1 where u1: "date_update put (int (t div 1000)) tz ?m = ((c1, m1), tz1)"
    by (metis prod.collapse)
  have h1: "date_hook put t tz ?m = (Inr c1, m1, tz1)" using u1 by (simp add: date_hook_def)
  obtain s1 where s1: "tm_eval (date_hook put) t tz s = (Inr (), tz1, s1)" "running s1" "m_impl s1 = m1"
    "m_thread s1 = m_thread s" "\<not> m_locked s1"
    "m_trace s1 = m_trace s @ [ALock, AUpdate (Inr c1), AUnlock] @ (if c1 then [ABroadcast] else [])"
    using h1 assms(1) by (rule tm_eval_ok)
  let ?s2 = "emit (ASleep k) (wakeup (s1\<lparr>m_impl := ?f m1\<rparr>))"
  have sl1: "tm_sleep T (toggle_wake k) t s1 = (t + k, ?s2)"
    using assms(4) s1(3) by (simp add: toggle_wake_def)
  have r2: "running ?s2" using s1(2) by (simp add: running_def wakeup_def)
  obtain c2 m2 tz2 where u2: "date_update put (int ((t + k) div 1000)) tz1 (?f m1) = ((c2, m2), tz2)"
    by (metis prod.collapse)
  have h2: "date_hook put (t + k) tz1 (m_impl ?s2) = (Inr c2, m2, tz2)"
    using u2 by (simp add: date_hook_def wakeup_def)
  obtain s3 where s3: "tm_eval (date_hook put) (t + k) tz1 ?s2 = (Inr (), tz2, s3)" "running s3" "m_impl s3 = m2"
    "m_thread s3 = m_thread ?s2" "\<not> m_locked s3"
    "m_trace s3 = m_trace ?s2 @ [ALock, AUpdate (Inr c2), AUnlock] @ (if c2 then [ABroadcast] else [])"
    using h2 r2 by (rule tm_eval_ok)
  let ?s4 = "emit (ASleep (min j T)) (mod_stop s3)"
  have loop: "tm_loop (date_hook put) T [toggle_wake k, Stopped j] t tz s = (Exited, t + k + min j T, tz2, ?s4)"
    using s1(1,2) s3(1,2) sl1 assms(1) r2
    by (simp add: tm_loop_ok tm_loop_not_running running_def)
  have run: "tm_runner (date_hook put) T [toggle_wake k, Stopped j] t tz s = (Exited, t + k + min j T, tz2, ?s4)"
    using loop by (simp add: tm_runner_def)
  have z1: "m_time_timezone_2 m1 = []" "m_time_timezone m1 = m_time_timezone ?m"
    using date_update_single_zone(4,5) [OF assms(3) u1] by simp_all
  have tz1: "set_tz (m_time_timezone ?m) tz1 = set_tz (m_time_timezone ?m) tz"
    using date_update_single_zone(6) [OF assms(3) u1] .
  have k1: "m_toggled m1 = m_toggled ?m" "m_timeformat m1 = m_timeformat ?m"
    "m_timeformat_alt m1 = m_timeformat_alt ?m"
    using date_update_keeps [of put "int (t div 1000)" tz ?m] u1 by simp_all
  have z2: "m_time_timezone_2 (?f m1) = []" using z1 by simp
  have "(m_date m2, m_time m2) =
          format_pair put (set_tz (m_time_timezone (?f m1)) tz1) (int ((t + k) div 1000)) (?f m1)"
    using date_update_single_zone(1) [OF z2 u2] .
  then have t2: "m_time m2 = put (set_tz (m_time_timezone ?m) tz) (int ((t + k) div 1000))
               (if m_toggled ?m then m_timeformat ?m else m_timeformat_alt ?m)"
    using z1(2) tz1 k1 by (simp add: format_pair_def)
  have g2: "m_toggled m2 = (\<not> m_toggled ?m)"
    using arg_cong [OF u2, of "\<lambda>x. m_toggled (snd (fst x))"] k1(1) by simp
  have tr: "new_actions s ?s4 = [ALock, AUpdate (Inr c1), AUnlock] @ (if c1 then [ABroadcast] else []) @
      [AWakeup, ASleep k, ALock, AUpdate (Inr c2), AUnlock] @ (if c2 then [ABroadcast] else []) @
      [AStop, AWakeup, ASleep (min j T)]"
    using s1(6) s3(2,6) by (simp add: new_actions_def trace_simps running_def)
  show ?thesis using run s3(3) t2 g2 tr by simp
qed


subsection \<open>Witnesses\<close>

lemma date_worker_ready:
  "running date_worker" "\<not> m_locked date_worker" "m_time_timezone_2 (m_impl date_worker) = []"
  by (simp_all add: date_worker_def running_def)

theorem date_timer_update_count_witness:
  "0 < (1000::nat) \<and> running date_worker \<and> \<not> m_locked date_worker
   \<and> (\<exists>tz' s'. tm_runner (date_hook demo_put) 1000 (stop_at 1000 2500) 0 None date_worker
                 = (Exited, 2500, tz', s')
       \<and> length (filter is_update (new_actions date_worker s')) = 3 \<and> \<not> running s')"
proof -
  have h: "0 < (1000::nat)" "running date_worker" "\<not> m_locked date_worker"
    using date_worker_ready by simp_all
  show ?thesis
    using date_timer_update_count [OF h, of demo_put 2500 None] h by simp
qed

theorem date_timer_broadcasts_witness:
  "running date_worker \<and> \<not> m_locked date_worker \<and> m_time_timezone_2 (m_impl date_worker) = []
   \<and> count_list (new_actions date_worker
       (snd (snd (snd (tm_runner (date_hook demo_put) 1000 (stop_at 1000 2500) 0 None date_worker)))))
       ABroadcast = 3"
proof -
  note h = date_worker_ready
  show ?thesis
    using date_timer_broadcasts [OF h, of demo_put 1000 2500 None] h
    by (simp add: shown_def format_pair_def set_tz_def demo_put_def date_worker_def demo_date_def
                  numeral_2_eq_2)
qed


theorem date_timer_lock_discipline_witness:
  "\<not> m_locked date_worker
   \<and> lock_walk False (new_actions date_worker (snd (snd (snd
        (tm_runner (date_hook demo_put) 1000 [toggle_wake 10, Tick, Stopped 5] 0 None date_worker)))))
       = Some False"
proof -
  have h: "\<not> m_locked date_worker" using date_worker_ready by simp
  show ?thesis
    using date_timer_lock_discipline [OF h, of demo_put 1000 "[toggle_wake 10, Tick, Stopped 5]" 0 None] h
    by simp
qed

theorem date_timer_toggle_early_witness:
  "running date_worker \<and> \<not> m_locked date_worker \<and> m_time_timezone_2 (m_impl date_worker) = []
   \<and> (250::nat) < 1000
   \<and> fst (snd (tm_runner (date_hook demo_put) 1000 [toggle_wake 250, Stopped 0] 0 None date_worker)) = 250
   \<and> m_time (m_impl (snd (snd (snd
        (tm_runner (date_hook demo_put) 1000 [toggle_wake 250, Stopped 0] 0 None date_worker)))))
       = demo_put None 0 []"
proof -
  have h: "running date_worker" "\<not> m_locked date_worker" "m_time_timezone_2 (m_impl date_worker) = []"
    "(250::nat) < 1000"
    using date_worker_ready by simp_all
  show ?thesis
    using date_timer_toggle_early [OF h, of demo_put 0 0 None] h
    by (simp add: set_tz_def date_worker_def demo_date_def)
qed



end
