(* ===== verification/Date_Race.thy ===== *)
theory Date_Race
  imports Date_Module
begin

text \<open>
  \<open>update()\<close> and \<open>input()\<close> of the date module run on different threads:
  the worker calls \<open>update()\<close> under the content lock, the input dispatcher calls
  \<open>input()\<close>, which flips \<open>m_toggled\<close> without taking that lock
  (\<open>src/src/modules/date.cpp\<close> line 130). \<open>update()\<close> reads \<open>m_toggled\<close> four
  times: for the date format (line 55), the time format (line 61), and the two
  formats of the secondary zone (lines 71 and 77). Here the interleaving is a
  list \<open>fl\<close>: its \<open>i\<close>-th entry says whether a toggle landed just before the
  \<open>i\<close>-th read. \<open>date_update\<close> is the run in which none lands.
\<close>

text \<open>The value the \<open>i\<close>-th read of \<open>m_toggled\<close> sees.\<close>

definition tog_at :: "bool \<Rightarrow> bool list \<Rightarrow> nat \<Rightarrow> bool" where
  "tog_at b fl i = (b \<noteq> odd (count_list (take (Suc i) fl) True))"

definition date_update_il ::
  "strftime_fn \<Rightarrow> int \<Rightarrow> string option \<Rightarrow> bool list \<Rightarrow> date_module
   \<Rightarrow> (bool \<times> date_module) \<times> string option" where
  "date_update_il put now tz fl m =
     (let orig = tz;
          g = tog_at (m_toggled m) fl;
          m0 = m\<lparr>m_toggled := g 3\<rparr>;
          tz1 = set_tz (m_time_timezone m) tz;
          ds = put tz1 now (if g 0 then m_dateformat_alt m else m_dateformat m);
          ts = put tz1 now (if g 1 then m_timeformat_alt m else m_timeformat m);
          tz2 = set_tz (m_time_timezone_2 m) tz1;
          ds2 = (if m_time_timezone_2 m \<noteq> [] then put tz2 now (if g 2 then m_dateformat_alt m else m_dateformat m) else []);
          ts2 = (if m_time_timezone_2 m \<noteq> [] then put tz2 now (if g 3 then m_timeformat_alt m else m_timeformat m) else [])
      in if m_date m = ds \<and> m_time m = ts then ((False, m0), tz2)
         else ((True, m0\<lparr>m_date := ds, m_date_2 := ds2, m_time := ts, m_time_2 := ts2,
                         m_label := map_option (fill_label ds ds2 ts ts2) (m_label m)\<rparr>),
               restore_tz orig tz2))"



text \<open>C31. A toggle that lands between the reads of lines 55 and 61 makes
  \<open>update()\<close> store the date in one format and the time in the other, a pair that no
  run of \<open>update()\<close> before or after the toggle would show.\<close>

theorem date_update_il_mixed_formats:
  assumes "date_update_il put now tz [False, True, False, False] m = ((True, m'), tz')"
  shows "m_date m' = put (set_tz (m_time_timezone m) tz) now
                       (if m_toggled m then m_dateformat_alt m else m_dateformat m)
       \<and> m_time m' = put (set_tz (m_time_timezone m) tz) now
                       (if m_toggled m then m_timeformat m else m_timeformat_alt m)
       \<and> m_toggled m' = (\<not> m_toggled m)"
  using assms by (auto simp: date_update_il_def tog_at_def set_tz_def Let_def split: if_splits)


theorem date_update_il_mixed_formats_witness:
  "date_update_il demo_put 3 None [False, True, False, False]
      (demo_date\<lparr>m_dateformat := ''%F'', m_timeformat_alt := ''%T''\<rparr>)
     = ((True, snd (fst (date_update_il demo_put 3 None [False, True, False, False]
                           (demo_date\<lparr>m_dateformat := ''%F'', m_timeformat_alt := ''%T''\<rparr>)))),
        snd (date_update_il demo_put 3 None [False, True, False, False]
               (demo_date\<lparr>m_dateformat := ''%F'', m_timeformat_alt := ''%T''\<rparr>)))
   \<and> m_date (snd (fst (date_update_il demo_put 3 None [False, True, False, False]
                           (demo_date\<lparr>m_dateformat := ''%F'', m_timeformat_alt := ''%T''\<rparr>))))
       = demo_put None 3 ''%F''
   \<and> m_time (snd (fst (date_update_il demo_put 3 None [False, True, False, False]
                           (demo_date\<lparr>m_dateformat := ''%F'', m_timeformat_alt := ''%T''\<rparr>))))
       = demo_put None 3 ''%T''"
proof -
  let ?m = "demo_date\<lparr>m_dateformat := ''%F'', m_timeformat_alt := ''%T''\<rparr>"
  have h: "date_update_il demo_put 3 None [False, True, False, False] ?m =
      ((True, snd (fst (date_update_il demo_put 3 None [False, True, False, False] ?m))),
       snd (date_update_il demo_put 3 None [False, True, False, False] ?m))"
    by (simp add: date_update_il_def tog_at_def set_tz_def demo_put_def demo_date_def Let_def)
  show ?thesis
    using h date_update_il_mixed_formats [OF h] by (simp add: set_tz_def demo_date_def)
qed

end
