(* ===== verification/Memory_Util.thy ===== *)
theory Memory_Util
  imports Prelude "HOL-Library.Word"
begin

text \<open>
  The two functions of \<open>src/include/utils/memory.hpp\<close>: \<open>countof\<close> in 64-bit
  \<open>size_t\<close> words, and \<open>make_malloc_ptr\<close> over an explicit C heap with the
  \<open>shared_ptr\<close> control block that owns the allocation.
\<close>

text \<open>
  \<open>memory_util::countof\<close> (lines 19--22):
  \<open>sizeof(p) / sizeof(p[0])\<close> for an argument \<open>T& p\<close>, computed in \<open>size_t\<close>,
  which is a 64-bit word here (x86-64). The argument is described by its C++
  type: a built-in array \<open>E[n]\<close> with elements of \<open>s\<close> bytes, or a pointer \<open>E*\<close>
  (8 bytes) to elements of \<open>s\<close> bytes, which also has \<open>p[0]\<close>.
\<close>

type_synonym size_t = "64 word"

datatype cobj = CArray nat nat | CPtr nat

fun c_sizeof :: "cobj \<Rightarrow> nat" where
  "c_sizeof (CArray n s) = n * s"
| "c_sizeof (CPtr s) = 8"

fun c_elemsize :: "cobj \<Rightarrow> nat" where
  "c_elemsize (CArray n s) = s"
| "c_elemsize (CPtr s) = s"

definition countof :: "cobj \<Rightarrow> size_t" where
  "countof p = word_of_nat (c_sizeof p) div word_of_nat (c_elemsize p)"

text \<open>
  \<open>memory_util::make_malloc_ptr\<close> (lines 11--14) hands the result of
  \<open>malloc(size)\<close> to a \<open>shared_ptr\<close> with the deleter, \<open>free\<close> by default. The
  C heap is a map from the addresses of live blocks to their sizes with the next
  fresh address; \<open>malloc\<close> may fail (\<open>ok = False\<close>) and then returns \<open>NULL\<close>;
  \<open>free(NULL)\<close> does nothing, and freeing an address that is not live is
  undefined behaviour, an error here (\<open>None\<close>). A \<open>shared_ptr\<close> group is a
  control block: the pointer, the number of owners and the deleter, which runs
  when the last owner releases it.
\<close>

datatype cptr = CNull | CAddr nat

record cheap =
  h_live :: "nat \<Rightarrow> nat option"
  h_next :: nat

type_synonym deleter = "cptr \<Rightarrow> cheap \<Rightarrow> cheap option"

definition c_malloc :: "bool \<Rightarrow> nat \<Rightarrow> cheap \<Rightarrow> cptr \<times> cheap" where
  "c_malloc ok sz h =
     (if ok then (CAddr (h_next h), h\<lparr>h_live := (h_live h)(h_next h \<mapsto> sz), h_next := Suc (h_next h)\<rparr>)
      else (CNull, h))"

fun c_free :: deleter where
  "c_free CNull h = Some h"
| "c_free (CAddr a) h = (if h_live h a = None then None else Some (h\<lparr>h_live := (h_live h)(a := None)\<rparr>))"

record sp_state =
  sp_heap :: cheap
  sp_cb :: "nat \<Rightarrow> (cptr \<times> nat \<times> deleter) option"
  sp_next :: nat

definition make_malloc_ptr :: "deleter \<Rightarrow> bool \<Rightarrow> nat \<Rightarrow> sp_state \<Rightarrow> nat \<times> sp_state" where
  "make_malloc_ptr del ok sz st =
     (case c_malloc ok sz (sp_heap st) of (p, h) \<Rightarrow>
        (sp_next st, st\<lparr>sp_heap := h, sp_cb := (sp_cb st)(sp_next st \<mapsto> (p, 1, del)),
                        sp_next := Suc (sp_next st)\<rparr>))"

text \<open>Copying and releasing an owner of the group \<open>c\<close>; both fail on a group whose
  block has already been released.\<close>

datatype sp_op = SCopy | SRelease

fun sp_step :: "sp_op \<Rightarrow> nat \<Rightarrow> sp_state \<Rightarrow> sp_state option" where
  "sp_step SCopy c st =
     (case sp_cb st c of None \<Rightarrow> None
      | Some (p, n, d) \<Rightarrow> Some (st\<lparr>sp_cb := (sp_cb st)(c \<mapsto> (p, Suc n, d))\<rparr>))"
| "sp_step SRelease c st =
     (case sp_cb st c of None \<Rightarrow> None
      | Some (p, n, d) \<Rightarrow>
          if n = 1 then (case d p (sp_heap st) of None \<Rightarrow> None
                         | Some h \<Rightarrow> Some (st\<lparr>sp_heap := h, sp_cb := (sp_cb st)(c := None)\<rparr>))
          else Some (st\<lparr>sp_cb := (sp_cb st)(c \<mapsto> (p, n - 1, d))\<rparr>))"

fun sp_run :: "sp_op list \<Rightarrow> nat \<Rightarrow> sp_state \<Rightarrow> sp_state option" where
  "sp_run [] c st = Some st"
| "sp_run (x # xs) c st = (case sp_step x c st of None \<Rightarrow> None | Some st' \<Rightarrow> sp_run xs c st')"

text \<open>\<open>owners k xs\<close>: starting with \<open>k\<close> owners, the copies and releases \<open>xs\<close> never
  act on a released group and end with the last owner's release.\<close>

fun owners :: "nat \<Rightarrow> sp_op list \<Rightarrow> bool" where
  "owners 0 xs = (xs = [])"
| "owners (Suc k) [] = False"
| "owners (Suc k) (SCopy # xs) = owners (Suc (Suc k)) xs"
| "owners (Suc k) (SRelease # xs) = owners k xs"

text \<open>A heap whose next fresh address is not in use.\<close>

definition heap_ok :: "cheap \<Rightarrow> bool" where
  "heap_ok h \<longleftrightarrow> h_live h (h_next h) = None"

lemma unat_word_of_nat_small: "x < 2 ^ 64 \<Longrightarrow> unat (word_of_nat x :: size_t) = x"
  by (simp add: unat_of_nat)

lemma make_malloc_ptr_cb:
  "make_malloc_ptr d ok sz st = (c, st1) \<Longrightarrow>
     c = sp_next st \<and> sp_cb st1 c = Some (fst (c_malloc ok sz (sp_heap st)), 1, d)
     \<and> sp_heap st1 = snd (c_malloc ok sz (sp_heap st))"
  by (auto simp: make_malloc_ptr_def split: prod.splits)

lemma c_free_malloc:
  "heap_ok h \<Longrightarrow>
     \<exists>h'. c_free (fst (c_malloc ok sz h)) (snd (c_malloc ok sz h)) = Some h' \<and> h_live h' = h_live h"
  by (auto simp: c_malloc_def heap_ok_def fun_upd_idem)

lemma sp_run_owners:
  assumes "sp_cb st c = Some (p, Suc k, c_free)" and "c_free p (sp_heap st) = Some h"
    and "owners (Suc k) xs"
  shows "\<exists>st'. sp_run xs c st = Some st' \<and> sp_heap st' = h \<and> sp_cb st' c = None"
  using assms
proof (induction xs arbitrary: k st)
  case Nil
  then show ?case by simp
next
  case (Cons x xs)
  show ?case
  proof (cases x)
    case SCopy
    let ?st1 = "st\<lparr>sp_cb := (sp_cb st)(c \<mapsto> (p, Suc (Suc k), c_free))\<rparr>"
    have "\<exists>st'. sp_run xs c ?st1 = Some st' \<and> sp_heap st' = h \<and> sp_cb st' c = None"
      by (rule Cons.IH) (use Cons.prems SCopy in simp_all)
    then show ?thesis using Cons.prems(1) SCopy by simp
  next
    case SRelease
    show ?thesis
    proof (cases k)
      case 0
      then show ?thesis using Cons.prems SRelease by simp
    next
      case (Suc k')
      let ?st1 = "st\<lparr>sp_cb := (sp_cb st)(c \<mapsto> (p, Suc k', c_free))\<rparr>"
      have "\<exists>st'. sp_run xs c ?st1 = Some st' \<and> sp_heap st' = h \<and> sp_cb st' c = None"
        by (rule Cons.IH) (use Cons.prems SRelease Suc in simp_all)
      then show ?thesis using Cons.prems(1) SRelease Suc by simp
    qed
  qed
qed

lemma make_malloc_ptr_null:
  "make_malloc_ptr d False sz st = (c, st1) \<Longrightarrow> sp_cb st1 c = Some (CNull, 1, d) \<and> sp_heap st1 = sp_heap st"
  by (simp add: make_malloc_ptr_cb c_malloc_def)

text \<open>C32. On a built-in array whose sz fits \<open>size_t\<close> (every array object
  does), \<open>countof\<close> is the number of elements: the division cannot be fooled by
  wrap-around.\<close>

theorem countof_array:
  assumes "0 < s" and "n * s < 2 ^ 64"
  shows "unat (countof (CArray n s)) = n"
proof (cases "n = 0")
  case True
  then show ?thesis by (simp add: countof_def)
next
  case False
  then have "s \<le> n * s" by simp
  then have "s < 2 ^ 64" using assms(2) by linarith
  then have b: "unat (word_of_nat s :: size_t) = s" by (rule unat_word_of_nat_small)
  have a: "unat (word_of_nat (n * s) :: size_t) = n * s" using assms(2) by (rule unat_word_of_nat_small)
  show ?thesis
    by (simp only: countof_def c_sizeof.simps c_elemsize.simps unat_div a b) (simp add: assms(1))
qed


theorem countof_array_witness:
  "0 < (4::nat) \<and> (10::nat) * 4 < 2 ^ 64 \<and> unat (countof (CArray 10 4)) = 10"
proof -
  have h: "0 < (4::nat)" "(10::nat) * 4 < 2 ^ 64" by simp_all
  show ?thesis using countof_array [OF h] h by simp
qed



text \<open>C39. Round trip of \<open>make_malloc_ptr\<close> with the default deleter: whatever
  copies and releases of the resulting \<open>shared_ptr\<close> follow, as long as none acts
  on a released group and the last owner releases it, no step fails (no double
  free) and the live blocks of the heap are again those before the allocation:
  the block is freed exactly once. This holds as well when \<open>malloc\<close> failed.\<close>

theorem make_malloc_ptr_roundtrip:
  assumes "heap_ok (sp_heap st)" and "make_malloc_ptr c_free ok sz st = (c, st1)"
    and "owners 1 xs"
  shows "\<exists>st2. sp_run xs c st1 = Some st2 \<and> h_live (sp_heap st2) = h_live (sp_heap st)
           \<and> sp_cb st2 c = None"
proof -
  note mk = make_malloc_ptr_cb [OF assms(2)]
  obtain h' where h': "c_free (fst (c_malloc ok sz (sp_heap st))) (snd (c_malloc ok sz (sp_heap st))) = Some h'"
    "h_live h' = h_live (sp_heap st)"
    using c_free_malloc [OF assms(1)] by blast
  have cb: "sp_cb st1 c = Some (fst (c_malloc ok sz (sp_heap st)), 1, c_free)"
    using mk by blast
  have hp: "c_free (fst (c_malloc ok sz (sp_heap st))) (sp_heap st1) = Some h'"
    using mk h'(1) by simp
  have "\<exists>st'. sp_run xs c st1 = Some st' \<and> sp_heap st' = h' \<and> sp_cb st' c = None"
    using sp_run_owners [OF cb [unfolded One_nat_def] hp] assms(3) [unfolded One_nat_def] by blast
  then show ?thesis using h'(2) by auto
qed

definition demo_sp :: sp_state where
  "demo_sp = \<lparr>sp_heap = \<lparr>h_live = Map.empty, h_next = 0\<rparr>, sp_cb = Map.empty, sp_next = 0\<rparr>"

theorem make_malloc_ptr_roundtrip_witness:
  "heap_ok (sp_heap demo_sp)
   \<and> make_malloc_ptr c_free True 16 demo_sp = (0, snd (make_malloc_ptr c_free True 16 demo_sp))
   \<and> owners 1 [SCopy, SRelease, SRelease]
   \<and> (\<exists>st2. sp_run [SCopy, SRelease, SRelease] 0 (snd (make_malloc_ptr c_free True 16 demo_sp)) = Some st2
         \<and> h_live (sp_heap st2) = h_live (sp_heap demo_sp) \<and> sp_cb st2 0 = None)"
proof -
  have h: "heap_ok (sp_heap demo_sp)"
    "make_malloc_ptr c_free True 16 demo_sp = (0, snd (make_malloc_ptr c_free True 16 demo_sp))"
    "owners 1 [SCopy, SRelease, SRelease]"
    by (simp_all add: heap_ok_def demo_sp_def make_malloc_ptr_def c_malloc_def)
  show ?thesis using h make_malloc_ptr_roundtrip [OF h] by blast
qed

end
