(* ===== verification/X11_Includes.thy ===== *)
theory X11_Includes
  imports Main
begin

text \<open>
  \<open>src/include/x11/extensions/all.hpp\<close> is a header of preprocessor directives
  only: it includes \<open>settings.hpp\<close>, which the build generates and which defines
  the \<open>WITH_*\<close> macros of the configuration, and then includes each X extension
  header that is enabled. The model runs the directives of the file through a
  small preprocessor: an \<open>#if\<close> tests the macros defined so far, an undefined
  macro counting as 0, and including \<open>settings.hpp\<close> defines the macros of the
  build configuration \<open>cfg\<close>. The output is the list of headers included, in order.
\<close>

datatype pp_line = PPragmaOnce | PInclude string | PIf string "pp_line list"

fun pp_run :: "(string \<Rightarrow> bool) \<Rightarrow> (string \<Rightarrow> bool) \<Rightarrow> pp_line list \<Rightarrow> (string \<Rightarrow> bool) \<times> string list" where
  "pp_run cfg env [] = (env, [])"
| "pp_run cfg env (PPragmaOnce # ls) = pp_run cfg env ls"
| "pp_run cfg env (PInclude h # ls) =
     (let env1 = (if h = ''settings.hpp'' then cfg else env) in
      case pp_run cfg env1 ls of (env2, out) \<Rightarrow> (env2, h # out))"
| "pp_run cfg env (PIf m body # ls) =
     (case (if env m then pp_run cfg env body else (env, [])) of (env1, out1) \<Rightarrow>
        (case pp_run cfg env1 ls of (env2, out2) \<Rightarrow> (env2, out1 @ out2)))"

text \<open>The file, line by line (lines 1--14).\<close>

definition all_hpp :: "pp_line list" where
  "all_hpp =
     [PPragmaOnce,
      PInclude ''settings.hpp'',
      PIf ''WITH_XDAMAGE'' [PInclude ''x11/extensions/damage.hpp''],
      PIf ''WITH_XRANDR'' [PInclude ''x11/extensions/randr.hpp''],
      PInclude ''x11/extensions/composite.hpp'',
      PIf ''WITH_XKB'' [PInclude ''x11/extensions/xkb.hpp'']]"

text \<open>No macro is defined before the file is processed.\<close>

definition undefined_macros :: "string \<Rightarrow> bool" where
  "undefined_macros m = False"

text \<open>C40. Whatever the build configuration, \<open>all.hpp\<close> includes \<open>settings.hpp\<close>
  first, then exactly the extension headers the configuration enables, in the order
  damage, randr, composite, xkb, the composite extension unconditionally.\<close>

theorem all_hpp_includes:
  "snd (pp_run cfg undefined_macros all_hpp) =
     ''settings.hpp'' #
     (if cfg ''WITH_XDAMAGE'' then [''x11/extensions/damage.hpp''] else []) @
     (if cfg ''WITH_XRANDR'' then [''x11/extensions/randr.hpp''] else []) @
     ''x11/extensions/composite.hpp'' #
     (if cfg ''WITH_XKB'' then [''x11/extensions/xkb.hpp''] else [])"
  by (simp add: all_hpp_def)

end
