(* ===== verification/Spec2Isabelle.thy ===== *)
theory Spec2Isabelle
  imports Event_Module Date_Timer Date_Race Memory_Util X11_Includes
begin

text \<open>
  \<^bold>\<open>A verification library for polybar's module core.\<close>

  \<^medskip>
  \<^bold>\<open>The program.\<close> A polybar module is an object that produces the content of
  one block of the bar. The base class \<open>module<Impl>\<close> holds the lifecycle flags
  (\<open>m_enabled\<close>, the worker thread \<open>m_mainthread\<close>), the content lock, the
  error log and the wake-up condition variable. It offers \<open>running()\<close>, \<open>stop()\<close>,
  \<open>halt(msg)\<close>, \<open>broadcast()\<close>, \<open>idle()\<close> and \<open>wakeup()\<close>. A driving strategy
  derives from it and runs the worker thread. The event-driven strategy
  \<open>event_module<Impl>\<close> (\<open>src/include/modules/meta/event_module.hpp\<close>) makes one
  warm-up evaluation and then asks the concrete module \<open>has_event()\<close>. The
  timer-driven strategy re-evaluates at a fixed interval. A concrete module
  such as the date module (\<open>src/src/modules/date.cpp\<close>) supplies \<open>update()\<close>,
  \<open>build()\<close> and \<open>input()\<close>. The strategy calls \<open>update()\<close> under the content
  lock and broadcasts a change to the bar, which then calls \<open>build()\<close>. Input
  dispatch calls \<open>input()\<close> from another thread.

  \<^medskip>
  \<^bold>\<open>Theories and correspondence.\<close>
  \<^item> \<open>Prelude\<close>: the proof collections \<open>module_defs\<close> and \<open>trace_simps\<close>; the
    \<open>string_util\<close> helpers \<open>trim\<close> and \<open>replace_all\<close> and the search \<open>occurs\<close>
    (\<open>find != npos\<close>), with their lemmas. Among them: \<open>replace_all\<close>
    removes every occurrence of a bracketed tag and forms none.
  \<^item> \<open>Module_Base\<close>: \<open>module<Impl>\<close>, modelled from spec sections 4.1, 4.2 and 5
    because \<open>base.hpp\<close> is not under \<open>src/\<close>. The record \<open>'impl module\<close> holds
    the base fields and the concrete module's state \<open>m_impl\<close>. Its trace
    \<open>m_trace\<close> lists the observable actions in order (\<open>action\<close>). The base
    operations are \<open>mod_stop\<close>, \<open>halt\<close>, \<open>broadcast\<close>, \<open>idle\<close>, \<open>wakeup\<close>,
    \<open>content_lock\<close>, \<open>content_unlock\<close> and \<open>call_update\<close>. \<open>base_apply\<close>
    dispatches a \<open>base_op\<close> from another thread. The abstract lifecycle
    machine of spec 4.1 is \<open>lc_step\<close> on \<open>lifecycle\<close>, with the abstraction
    \<open>lifecycle_of\<close>. \<open>lock_walk\<close> checks a trace for the lock discipline.
  \<^item> \<open>Event_Module\<close>: \<open>event_module<Impl>\<close>. \<open>ev_start\<close> is \<open>start()\<close>
    (lines 13--15). \<open>ev_runner\<close> is \<open>runner()\<close> (lines 18--41). It is composed
    of \<open>ev_warmup\<close> (lines 21--25), \<open>ev_check\<close> (the lambda of lines 27--30),
    \<open>ev_iteration\<close> (lines 33--36) and \<open>ev_loop\<close> (the \<open>while\<close> of line 32).
    The \<open>catch\<close> turns an \<open>Inl\<close> result into \<open>halt\<close>. The concrete module
    enters as the two hooks of \<open>'impl ev_ops\<close>. \<open>mod_apply\<close> and \<open>mod_run\<close>
    interleave the base operations of other threads with \<open>start()\<close> and the
    worker.
  \<^item> \<open>Date_Module\<close>: \<open>date_module\<close>. \<open>date_ctor\<close> is the constructor (lines
    11--41), \<open>date_update\<close> is \<open>update()\<close> (lines 43--108) with its helpers
    \<open>set_tz\<close>, \<open>format_pair\<close>, \<open>restore_tz\<close> and \<open>fill_label\<close>. \<open>date_build\<close>
    is \<open>build()\<close> (lines 110--124) and \<open>date_input\<close> is \<open>input()\<close> (lines
    126--133). The configuration (\<open>config\<close>), the label (\<open>label\<close>) and the
    builder (\<open>bnode\<close>) are collaborators and are modelled from their use.
    \<open>date_wf\<close> is the well-formedness the constructor guarantees (lines
    23--40).
  \<^item> \<open>Timer_Module\<close>: \<open>timer_module<Impl>\<close>, modelled from spec 4.3 because
    \<open>timer_module.hpp\<close> is not under \<open>src/\<close>. \<open>tm_eval\<close> is one evaluation
    (lock, \<open>update()\<close>, unlock, broadcast on change) and \<open>tm_sleep\<close> is the
    interval wait. \<open>tm_loop\<close> and \<open>tm_runner\<close> are the loop and its \<open>catch\<close>.
    The hook takes the clock and the process environment.
  \<^item> \<open>Date_Timer\<close>: the date module as it runs, under the timer strategy it
    derives from (date.cpp line 11). \<open>date_hook\<close> is \<open>update()\<close> reading
    \<open>std::time\<close> in seconds (line 44), with \<open>TZ\<close> as the environment.
    \<open>toggle_wake\<close> is \<open>input()\<close> arriving during a sleep (lines 130--131).
  \<^item> \<open>Date_Race\<close>: \<open>date_update_il\<close> is \<open>update()\<close> with toggles from
    \<open>input()\<close> landing between its four reads of \<open>m_toggled\<close> (lines 55, 61,
    71 and 77). \<open>tog_at\<close> gives the value each read sees.
  \<^item> \<open>Memory_Util\<close>: \<open>src/include/utils/memory.hpp\<close>. \<open>countof\<close> (lines
    19--22) is modelled in 64-bit \<open>size_t\<close> words, with its argument described
    by its C++ type, \<open>cobj\<close>. \<open>make_malloc_ptr\<close> (lines 11--14) runs on an
    explicit C heap (\<open>cheap\<close>, \<open>c_malloc\<close>, \<open>c_free\<close>). Its \<open>shared_ptr\<close>
    is a control block holding the pointer, the owner count and the deleter,
    and \<open>sp_step\<close> copies or releases an owner.
  \<^item> \<open>X11_Includes\<close>: \<open>src/include/x11/extensions/all.hpp\<close> transcribed as
    the directive list \<open>all_hpp\<close>. It is run through \<open>pp_run\<close>, a small
    preprocessor in which including \<open>settings.hpp\<close> defines the \<open>WITH_*\<close>
    macros of the build configuration.

  \<^medskip>
  \<^bold>\<open>Modelling choices.\<close>
  \<^item> Exceptions are values. An operation that may raise returns
    \<open>string + _\<close>, and \<open>Inl msg\<close> is the exception's \<open>what()\<close>. A constructor
    error is \<open>date_error\<close>. \<open>std::terminate\<close> on a double start is
    \<open>start_error\<close>, and \<open>mod_apply\<close> returns \<open>None\<close> for it.
  \<^item> Other threads act on the worker only through \<open>stop()\<close>, which clears
    \<open>m_enabled\<close>. The runner therefore takes a schedule \<open>sched :: bool list\<close>.
    Its \<open>i\<close>-th entry says whether a stop took effect just before the
    \<open>i\<close>-th test of \<open>running()\<close>. The schedule is the fuel of the loop. When it
    is used up while the module still runs, the result is \<open>Pending\<close>, which
    means the worker is still looping. The event loop has no other bound:
    C7 shows that any schedule containing a stop makes the runner return,
    and C8 shows that a schedule without one keeps it looping, one pass per
    entry.
  \<^item> The environment variable \<open>TZ\<close> is process-wide state shared by all
    modules. \<open>date_update\<close> takes its value (\<open>None\<close>: unset) and returns the
    value it leaves. \<open>std::put_time(localtime(t))\<close> is an arbitrary function
    \<open>put\<close> of \<open>TZ\<close>, the time and the format, so every date lemma holds for
    any C library.
  \<^item> The timer worker's clock advances only by sleeping. Its schedule
    \<open>'impl sleep_end list\<close> says how each sleep ends: the full interval, an
    early wake-up carrying another thread's change, or a stop. \<open>stop_at T D\<close>
    is the environment of spec section 8: no early wake-up, and a stop
    \<open>D\<close> ms after start-up. It has \<open>floor(D/T)+1\<close> entries, which is exactly
    enough fuel for the worker to return. The interval is a parameter \<open>T\<close>
    (\<open>m_interval\<close> in the code).

  \<^medskip>
  \<^bold>\<open>What the lemmas show.\<close>
  \<^item> Lifecycle (C1, C2): every run of an event module refines the spec's
    machine Idle \<open>\<rightarrow>\<close> Running \<open>\<rightarrow>\<close> Halted, and a halted module never runs
    again.
  \<^item> Event runner (C3--C12): the warm-up comes first and only once; the lock
    discipline holds on every path; a failing \<open>update()\<close> halts the module
    after one attempt; broadcasts answer exactly the changed updates; the
    runner returns once stopped, loops while running, does nothing after
    the stop, and returns only halted; a second \<open>start()\<close> terminates the
    process; a module stopped before its worker started still broadcasts
    once.
  \<^item> Date module (C13--C24): when the constructor fails; that \<open>update()\<close> is
    a function of its inputs and idempotent; its effect on \<open>TZ\<close>, including
    the defects of lines 49, 84, 85 and 102 listed among the findings; the
    label's tokens; \<open>build()\<close> and \<open>input()\<close>. C34: no deprecated
    \<open><date>\<close> tag survives the constructor.
  \<^item> Date module under the timer (C25--C29): \<open>floor(D/T)+1\<close> updates in \<open>D\<close>
    ms; broadcasts exactly when the shown strings change; at most one
    broadcast within a second; the lock discipline under any interleaving
    of toggles and stops; a toggle wakes the worker at once and switches
    the format.
  \<^item> Race with \<open>input()\<close> (C30, C31): without a concurrent toggle the
    interleaved model is \<open>update()\<close>. A toggle between lines 55 and 61
    stores a date and a time in different formats.
  \<^item> Across modules (C35, C36, this theory): because \<open>TZ\<close> is shared, a
    date module with \<open>time-TZ\<close> makes another date module without a zone
    format in its zone, when \<open>TZ\<close> was unset and, with \<open>TZ\<close> set, after an
    update that found nothing changed.
  \<^item> \<open>countof\<close> (C32, C33): exact on every array whose size fits \<open>size_t\<close>;
    on a pointer it returns \<open>sizeof(E*)/sizeof(E)\<close>.
  \<^item> Type invariant of the date module (C37, C38): the constructor returns
    only well-formed modules (\<open>date_wf\<close>). \<open>update()\<close>, \<open>input()\<close> and every
    timer run with ticks, toggles and stops preserve it. The timer half rests
    on \<open>tm_runner_impl_inv\<close>, which holds for any property of the module
    state preserved by the hook and the wake-ups.
  \<^item> \<open>make_malloc_ptr\<close> round trip (C39): copies and releases that end with
    the last owner's release never double-free. They give back the heap's
    live blocks, whether \<open>malloc\<close> succeeded or not.
  \<^item> \<open>all.hpp\<close> (C40): \<open>settings.hpp\<close> comes first, then exactly the
    extension headers the build enables, and composite always.

  \<^medskip>
  \<^bold>\<open>Not modelled.\<close> The locale setup of the date constructor (date.cpp lines
  12--14) only changes what \<open>put\<close> produces, and \<open>put\<close> is already arbitrary.
  The extension headers that \<open>all.hpp\<close> includes and \<open>settings.hpp\<close> are not
  in the repository. The formatter, renderer and configuration parser are outside the
  repository. The memory model of the threads is not modelled: the lock is a
  flag of the trace, and other threads are the schedule and \<open>base_op\<close>s.
\<close>


section \<open>Properties across modules\<close>

text \<open>C35. \<open>TZ\<close> is shared by the whole process. When it was unset, a date module
  with \<open>time-TZ\<close> leaves its zone in \<open>TZ\<close> after every update (line 102 restores
  only a value that was set), so another date module without a zone of its own
  formats its next time in the first module's zone.\<close>

theorem tz_unset_leaks_across_modules:
  assumes "tz = None" and "m_time_timezone a \<noteq> []" and "m_time_timezone_2 a = []"
    and "m_time_timezone b = []" and "m_time_timezone_2 b = []"
  shows "m_time (snd (fst (date_update put now' (snd (date_update put now tz a)) b))) =
           put (Some (m_time_timezone a)) now' (if m_toggled b then m_timeformat_alt b else m_timeformat b)"
  using assms by (auto simp: date_update_defs)

text \<open>C36. Even when \<open>TZ\<close> was set, an update of a module with \<open>time-TZ\<close> that finds
  nothing changed returns early (line 85) with its zone in \<open>TZ\<close>, and the next
  module without a zone formats in that zone.\<close>

theorem tz_unchanged_leaks_across_modules:
  assumes "m_time_timezone a \<noteq> []" and "m_time_timezone_2 a = []"
    and "\<not> fst (fst (date_update put now tz a))"
    and "m_time_timezone b = []" and "m_time_timezone_2 b = []"
  shows "m_time (snd (fst (date_update put now' (snd (date_update put now tz a)) b))) =
           put (Some (m_time_timezone a)) now' (if m_toggled b then m_timeformat_alt b else m_timeformat b)"
  using assms by (auto simp: date_update_defs split: if_splits)

theorem tz_unset_leaks_across_modules_witness:
  "(None :: string option) = None \<and> m_time_timezone (demo_date\<lparr>m_time_timezone := ''UTC'', m_time_timezone_2 := []\<rparr>) \<noteq> []
   \<and> m_time_timezone_2 (demo_date\<lparr>m_time_timezone := ''UTC'', m_time_timezone_2 := []\<rparr>) = []
   \<and> m_time_timezone (demo_date\<lparr>m_time_timezone_2 := []\<rparr>) = []
   \<and> m_time_timezone_2 (demo_date\<lparr>m_time_timezone_2 := []\<rparr>) = []
   \<and> m_time (snd (fst (date_update demo_put 4
        (snd (date_update demo_put 3 None (demo_date\<lparr>m_time_timezone := ''UTC'', m_time_timezone_2 := []\<rparr>)))
        (demo_date\<lparr>m_time_timezone_2 := []\<rparr>)))) = ''%H:%MUTC....''"
proof -
  have h: "(None :: string option) = None"
    "m_time_timezone (demo_date\<lparr>m_time_timezone := ''UTC'', m_time_timezone_2 := []\<rparr>) \<noteq> []"
    "m_time_timezone_2 (demo_date\<lparr>m_time_timezone := ''UTC'', m_time_timezone_2 := []\<rparr>) = []"
    "m_time_timezone (demo_date\<lparr>m_time_timezone_2 := []\<rparr>) = []"
    "m_time_timezone_2 (demo_date\<lparr>m_time_timezone_2 := []\<rparr>) = []"
    by (simp_all add: demo_date_def)
  show ?thesis
    using h tz_unset_leaks_across_modules [OF h, of demo_put 4 3]
    by (simp add: demo_put_def demo_date_def numeral_eq_Suc)
qed


theorem tz_unchanged_leaks_across_modules_witness:
  "m_time_timezone (demo_date\<lparr>m_time_timezone := ''UTC'', m_time_timezone_2 := [], m_time := ''%H:%MUTC...''\<rparr>) \<noteq> []
   \<and> m_time_timezone_2 (demo_date\<lparr>m_time_timezone := ''UTC'', m_time_timezone_2 := [], m_time := ''%H:%MUTC...''\<rparr>) = []
   \<and> \<not> fst (fst (date_update demo_put 3 (Some ''Europe/Paris'')
          (demo_date\<lparr>m_time_timezone := ''UTC'', m_time_timezone_2 := [], m_time := ''%H:%MUTC...''\<rparr>)))
   \<and> m_time_timezone (demo_date\<lparr>m_time_timezone_2 := []\<rparr>) = []
   \<and> m_time_timezone_2 (demo_date\<lparr>m_time_timezone_2 := []\<rparr>) = []
   \<and> m_time (snd (fst (date_update demo_put 4
        (snd (date_update demo_put 3 (Some ''Europe/Paris'')
          (demo_date\<lparr>m_time_timezone := ''UTC'', m_time_timezone_2 := [], m_time := ''%H:%MUTC...''\<rparr>)))
        (demo_date\<lparr>m_time_timezone_2 := []\<rparr>)))) = ''%H:%MUTC....''"
proof -
  let ?a = "demo_date\<lparr>m_time_timezone := ''UTC'', m_time_timezone_2 := [], m_time := ''%H:%MUTC...''\<rparr>"
  have h: "m_time_timezone ?a \<noteq> []" "m_time_timezone_2 ?a = []"
    "\<not> fst (fst (date_update demo_put 3 (Some ''Europe/Paris'') ?a))"
    "m_time_timezone (demo_date\<lparr>m_time_timezone_2 := []\<rparr>) = []"
    "m_time_timezone_2 (demo_date\<lparr>m_time_timezone_2 := []\<rparr>) = []"
    by (simp_all add: demo_date_def date_update_defs demo_put_def numeral_eq_Suc)
  show ?thesis
    using h tz_unchanged_leaks_across_modules [OF h, of 4]
    by (simp add: demo_put_def demo_date_def numeral_eq_Suc)
qed

end
